theory Spec2Isabelle
  imports Main "HOL-Library.Multiset" "HOL-Library.List_Lexorder"
begin

section \<open>Names\<close>

text \<open>
  Modelled from the spec: package \<^verbatim>\<open>names\<close> is used by the sources and is not among
  them. A name is an ordered sequence of word segments; equality and order are
  segment-wise and case-insensitive. Every \<^verbatim>\<open>*names.Name\<close> handled below is non-nil.
\<close>

type_synonym Name = "string list"

text \<open>
  The case-insensitive key of a word and of a name: the bytes of each word, with the
  ASCII upper-case letters lowered.
\<close>

definition lower_char :: "char \<Rightarrow> nat" where
  "lower_char c =
     (let n = (of_char c :: nat) in if 65 \<le> n \<and> n \<le> 90 then n + 32 else n)"

definition word_key :: "string \<Rightarrow> nat list" where
  "word_key w = map lower_char w"

definition name_key :: "Name \<Rightarrow> nat list list" where
  "name_key n = map word_key n"

text \<open>
  Modelled from the spec: \<^verbatim>\<open>names.Compare\<close> is missing from the sources. The spec gives the
  order on names as segment-wise and case-insensitive, total, and the one used for every
  sorted collection; the result is -1, 0 or 1 as in the use
  \<^verbatim>\<open>names.Compare(s[i].name, s[j].name) == -1\<close> of \<^verbatim>\<open>ResourceSlice.Less\<close>.
\<close>

definition names_Compare :: "Name \<Rightarrow> Name \<Rightarrow> int" where
  "names_Compare a b =
     (if name_key a < name_key b then - 1
      else if name_key a = name_key b then 0
      else 1)"

text \<open>
  Modelled from the spec: \<^verbatim>\<open>Name.Equals\<close> is missing from the sources; equality of names is
  segment-wise and case-insensitive.
\<close>

definition Name_Equals :: "Name \<Rightarrow> Name \<Rightarrow> bool" where
  "Name_Equals a b \<longleftrightarrow>
     length a = length b \<and> list_all2 (\<lambda>u v. word_key u = word_key v) a b"

text \<open>
  Modelled from the spec: \<^verbatim>\<open>names.Cat\<close> is missing from the sources; it composes two names
  into one longer name and keeps the word segments of both.
\<close>

definition names_Cat :: "Name \<Rightarrow> Name \<Rightarrow> Name" where
  "names_Cat a b = a @ b"

text \<open>
  Modelled from the spec: package \<^verbatim>\<open>nomenclator\<close> is missing from the sources. The spec
  gives \<^verbatim>\<open>Type\<close> and \<^verbatim>\<open>Metadata\<close> as the words that are concatenated to names; each
  constant is taken to be the one word it is called by.
\<close>

definition nomenclator_Type :: Name where
  "nomenclator_Type = [''Type'']"

definition nomenclator_Metadata :: Name where
  "nomenclator_Metadata = [''Metadata'']"

definition nomenclator_List :: Name where
  "nomenclator_List = [''List'']"


section \<open>The concept graph\<close>

text \<open>
  Every entity of the graph is a Go object reached through a pointer. An object is
  identified by its address; \<open>None\<close> of type \<open>ptr option\<close> is the nil pointer. The heap
  gives the current fields of the object at every address.
\<close>

type_synonym ptr = nat

subsection \<open>Resources, methods and locators\<close>

text \<open>
  Modelled from the spec: \<^verbatim>\<open>Method\<close> and \<^verbatim>\<open>Locator\<close> are declared in files that are not
  among the sources. The fields kept are the ones \<^verbatim>\<open>Resource\<close> reads or writes: the owner
  back-reference (\<^verbatim>\<open>SetOwner\<close>), the name (\<^verbatim>\<open>Name()\<close>) and the variable flag of a locator
  (\<^verbatim>\<open>Variable()\<close>).
\<close>

record Method =
  Method_owner :: "ptr option"
  Method_name :: Name

record Locator =
  Locator_owner :: "ptr option"
  Locator_name :: Name
  Locator_variable :: bool

text \<open>The struct \<^verbatim>\<open>Resource\<close>; the two slices hold pointers.\<close>

record Resource =
  Resource_owner :: "ptr option"
  Resource_doc :: string
  Resource_name :: "Name option"
  Resource_methods :: "ptr list"
  Resource_locators :: "ptr list"

subsection \<open>Types and attributes\<close>

text \<open>
  Modelled from the spec: \<^verbatim>\<open>Type\<close>, \<^verbatim>\<open>Attribute\<close>, \<^verbatim>\<open>Version\<close>, \<^verbatim>\<open>Service\<close> and
  \<^verbatim>\<open>Model\<close> are declared in files that are not among the sources. A type is a tagged
  variant: scalar, enum, struct, class (a struct with identity), list or map. The spec
  also speaks of the malformed model, in which a type matches none of scalar, struct,
  list and map: \<open>UnknownType\<close> is the kind of such a type, a value of the kind outside
  the six that are named.
\<close>

datatype TypeKind =
  ScalarType | EnumType | StructType | ClassType | ListType | MapType | UnknownType

record Type =
  Type_owner :: ptr
  Type_name :: Name
  Type_kind :: TypeKind
  Type_attributes :: "ptr list"

record Attribute =
  Attribute_name :: Name
  Attribute_type :: ptr
  Attribute_link :: bool

record Version =
  Version_types :: "ptr list"

record Service =
  Service_versions :: "ptr list"

record Model =
  Model_services :: "ptr list"

record Heap =
  resource_at :: "ptr \<Rightarrow> Resource"
  method_at :: "ptr \<Rightarrow> Method"
  locator_at :: "ptr \<Rightarrow> Locator"
  model_at :: "ptr \<Rightarrow> Model"
  service_at :: "ptr \<Rightarrow> Service"
  version_at :: "ptr \<Rightarrow> Version"
  type_at :: "ptr \<Rightarrow> Type"
  attribute_at :: "ptr \<Rightarrow> Attribute"

text \<open>
  Modelled from the spec: the kind predicates of \<^verbatim>\<open>Type\<close>. The value type of an
  attribute may be any type, and every type of a well-formed model matches scalar,
  struct, list or map: a class is a struct with identity, so \<^verbatim>\<open>IsStruct\<close> holds of a
  class too (the struct template of the generator asks \<^verbatim>\<open>.Type.IsClass\<close> of the types
  it is run on), and an enum is a scalar, so \<^verbatim>\<open>IsScalar\<close> holds of an enum too. None of
  the four holds of a type of unknown kind.
\<close>

definition IsScalar :: "Type \<Rightarrow> bool" where
  "IsScalar t \<longleftrightarrow> Type_kind t = ScalarType \<or> Type_kind t = EnumType"

definition IsEnum :: "Type \<Rightarrow> bool" where
  "IsEnum t \<longleftrightarrow> Type_kind t = EnumType"

definition IsStruct :: "Type \<Rightarrow> bool" where
  "IsStruct t \<longleftrightarrow> Type_kind t = StructType \<or> Type_kind t = ClassType"

definition IsClass :: "Type \<Rightarrow> bool" where
  "IsClass t \<longleftrightarrow> Type_kind t = ClassType"

definition IsList :: "Type \<Rightarrow> bool" where
  "IsList t \<longleftrightarrow> Type_kind t = ListType"

definition IsMap :: "Type \<Rightarrow> bool" where
  "IsMap t \<longleftrightarrow> Type_kind t = MapType"

section \<open>Resources\<close>

subsection \<open>The sort of the standard library\<close>

text \<open>
  \<^verbatim>\<open>sort.Sort\<close> belongs to Go's standard library, not to this repository. The operations
  that call it take it as the parameter \<open>srt\<close>: from the \<^verbatim>\<open>Less\<close> of the slice and the
  slice to the slice after the call. The library documents that \<^verbatim>\<open>Less\<close> must describe
  a transitive ordering (both \<^verbatim>\<open>Less\<close> and its negation transitive), that the data ends
  in ascending order as determined by \<^verbatim>\<open>Less\<close>, and that the sort need not be stable.
\<close>

definition transitive_ordering :: "('a \<Rightarrow> 'a \<Rightarrow> bool) \<Rightarrow> bool" where
  "transitive_ordering lt \<longleftrightarrow>
     (\<forall>a. \<not> lt a a) \<and>
     (\<forall>a b c. lt a b \<and> lt b c \<longrightarrow> lt a c) \<and>
     (\<forall>a b c. \<not> lt a b \<and> \<not> lt b c \<longrightarrow> \<not> lt a c)"

definition ascending :: "('a \<Rightarrow> 'a \<Rightarrow> bool) \<Rightarrow> 'a list \<Rightarrow> bool" where
  "ascending lt xs \<longleftrightarrow> sorted_wrt (\<lambda>a b. \<not> lt b a) xs"

definition sort_contract :: "(('a \<Rightarrow> 'a \<Rightarrow> bool) \<Rightarrow> 'a list \<Rightarrow> 'a list) \<Rightarrow> bool" where
  "sort_contract srt \<longleftrightarrow>
     (\<forall>lt xs. transitive_ordering lt \<longrightarrow>
        mset (srt lt xs) = mset xs \<and> ascending lt (srt lt xs))"

text \<open>
  The insertion sort of the library, which is what \<^verbatim>\<open>sort.Sort\<close> runs on a short slice:
  \<^verbatim>\<open>for i := a + 1; i < b; i++ { for j := i; j > a && data.Less(j, j-1); j-- { data.Swap(j, j-1) } }\<close>.
  The sorted prefix is kept reversed, its last element first; \<open>sift\<close> is the inner loop,
  which moves the new element towards the front while it is less than its predecessor.
\<close>

fun sift :: "('a \<Rightarrow> 'a \<Rightarrow> bool) \<Rightarrow> 'a \<Rightarrow> 'a list \<Rightarrow> 'a list" where
  "sift lt x [] = [x]"
| "sift lt x (y # ys) = (if lt x y then y # sift lt x ys else x # y # ys)"

definition insertionSort :: "('a \<Rightarrow> 'a \<Rightarrow> bool) \<Rightarrow> 'a list \<Rightarrow> 'a list" where
  "insertionSort lt xs = rev (foldl (\<lambda>prefix x. sift lt x prefix) [] xs)"

subsection \<open>The slices of methods and locators\<close>

text \<open>
  Modelled from the spec: \<^verbatim>\<open>MethodSlice\<close> and \<^verbatim>\<open>LocatorSlice\<close> are declared with
  \<^verbatim>\<open>Method\<close> and \<^verbatim>\<open>Locator\<close>, in files that are not among the sources. The spec has
  both collections sorted by the order on names; their \<^verbatim>\<open>Less\<close> is written as the one of
  \<^verbatim>\<open>ResourceSlice\<close>, which the sources do hold:
  \<^verbatim>\<open>names.Compare(s[i].name, s[j].name) == -1\<close>.
\<close>

definition MethodSlice_Less :: "Heap \<Rightarrow> ptr \<Rightarrow> ptr \<Rightarrow> bool" where
  "MethodSlice_Less h a b \<longleftrightarrow>
     names_Compare (Method_name (method_at h a)) (Method_name (method_at h b)) = - 1"

definition LocatorSlice_Less :: "Heap \<Rightarrow> ptr \<Rightarrow> ptr \<Rightarrow> bool" where
  "LocatorSlice_Less h a b \<longleftrightarrow>
     names_Compare (Locator_name (locator_at h a)) (Locator_name (locator_at h b)) = - 1"

text \<open>
  Modelled from the spec: \<^verbatim>\<open>Method.SetOwner\<close> and \<^verbatim>\<open>Locator.SetOwner\<close> are missing from
  the sources; they set the owner back-reference, as \<^verbatim>\<open>Resource.SetOwner\<close> does.
\<close>

definition Method_SetOwner :: "ptr \<Rightarrow> ptr option \<Rightarrow> Heap \<Rightarrow> Heap" where
  "Method_SetOwner m value h =
     h\<lparr>method_at := (method_at h)(m := (method_at h m)\<lparr>Method_owner := value\<rparr>)\<rparr>"

definition Locator_SetOwner :: "ptr \<Rightarrow> ptr option \<Rightarrow> Heap \<Rightarrow> Heap" where
  "Locator_SetOwner l value h =
     h\<lparr>locator_at := (locator_at h)(l := (locator_at h l)\<lparr>Locator_owner := value\<rparr>)\<rparr>"

subsection \<open>The operations of a resource\<close>

text \<open>
  The receiver \<open>r\<close> is the address of the resource. \<^verbatim>\<open>NewResource\<close> is \<^verbatim>\<open>new(Resource)\<close>:
  the object at the address the allocator hands out has every field zero.
\<close>

definition zero_Resource :: Resource where
  "zero_Resource =
     \<lparr>Resource_owner = None, Resource_doc = [], Resource_name = None,
      Resource_methods = [], Resource_locators = []\<rparr>"

definition NewResource :: "ptr \<Rightarrow> Heap \<Rightarrow> Heap" where
  "NewResource r h = h\<lparr>resource_at := (resource_at h)(r := zero_Resource)\<rparr>"

definition Owner :: "Heap \<Rightarrow> ptr \<Rightarrow> ptr option" where
  "Owner h r = Resource_owner (resource_at h r)"

definition SetOwner :: "ptr \<Rightarrow> ptr option \<Rightarrow> Heap \<Rightarrow> Heap" where
  "SetOwner r value h =
     h\<lparr>resource_at := (resource_at h)(r := (resource_at h r)\<lparr>Resource_owner := value\<rparr>)\<rparr>"

definition Doc :: "Heap \<Rightarrow> ptr \<Rightarrow> string" where
  "Doc h r = Resource_doc (resource_at h r)"

definition SetDoc :: "ptr \<Rightarrow> string \<Rightarrow> Heap \<Rightarrow> Heap" where
  "SetDoc r value h =
     h\<lparr>resource_at := (resource_at h)(r := (resource_at h r)\<lparr>Resource_doc := value\<rparr>)\<rparr>"

definition Name :: "Heap \<Rightarrow> ptr \<Rightarrow> Name option" where
  "Name h r = Resource_name (resource_at h r)"

definition SetName :: "ptr \<Rightarrow> Name option \<Rightarrow> Heap \<Rightarrow> Heap" where
  "SetName r value h =
     h\<lparr>resource_at := (resource_at h)(r := (resource_at h r)\<lparr>Resource_name := value\<rparr>)\<rparr>"

definition Methods :: "Heap \<Rightarrow> ptr \<Rightarrow> ptr list" where
  "Methods h r = Resource_methods (resource_at h r)"

definition set_methods :: "ptr \<Rightarrow> ptr list \<Rightarrow> Heap \<Rightarrow> Heap" where
  "set_methods r ms h =
     h\<lparr>resource_at := (resource_at h)(r := (resource_at h r)\<lparr>Resource_methods := ms\<rparr>)\<rparr>"

text \<open>
  \<^verbatim>\<open>AddMethod\<close>: a nil method changes nothing; otherwise the method is appended, the
  slice is sorted, and the owner of the method is set.
\<close>

definition AddMethod ::
  "((ptr \<Rightarrow> ptr \<Rightarrow> bool) \<Rightarrow> ptr list \<Rightarrow> ptr list) \<Rightarrow> ptr \<Rightarrow> ptr option \<Rightarrow> Heap \<Rightarrow> Heap" where
  "AddMethod srt r method h =
     (case method of
        None \<Rightarrow> h
      | Some m \<Rightarrow>
          (let h1 = set_methods r (Methods h r @ [m]) h;
               h2 = set_methods r (srt (MethodSlice_Less h1) (Methods h1 r)) h1
           in Method_SetOwner m (Some r) h2))"

fun FindMethod_loop :: "Heap \<Rightarrow> Name \<Rightarrow> ptr list \<Rightarrow> ptr option" where
  "FindMethod_loop h name [] = None"
| "FindMethod_loop h name (method # rest) =
     (if Name_Equals (Method_name (method_at h method)) name then Some method
      else FindMethod_loop h name rest)"

definition FindMethod :: "Heap \<Rightarrow> ptr \<Rightarrow> Name \<Rightarrow> ptr option" where
  "FindMethod h r name = FindMethod_loop h name (Methods h r)"

definition Locators :: "Heap \<Rightarrow> ptr \<Rightarrow> ptr list" where
  "Locators h r = Resource_locators (resource_at h r)"

definition set_locators :: "ptr \<Rightarrow> ptr list \<Rightarrow> Heap \<Rightarrow> Heap" where
  "set_locators r ls h =
     h\<lparr>resource_at := (resource_at h)(r := (resource_at h r)\<lparr>Resource_locators := ls\<rparr>)\<rparr>"

fun VariableLocator_loop :: "Heap \<Rightarrow> ptr list \<Rightarrow> ptr option" where
  "VariableLocator_loop h [] = None"
| "VariableLocator_loop h (locator # rest) =
     (if Locator_variable (locator_at h locator) then Some locator
      else VariableLocator_loop h rest)"

definition VariableLocator :: "Heap \<Rightarrow> ptr \<Rightarrow> ptr option" where
  "VariableLocator h r = VariableLocator_loop h (Locators h r)"

fun ConstantLocators_loop :: "Heap \<Rightarrow> ptr list \<Rightarrow> ptr list \<Rightarrow> ptr list" where
  "ConstantLocators_loop h locators [] = locators"
| "ConstantLocators_loop h locators (locator # rest) =
     (if \<not> Locator_variable (locator_at h locator)
      then ConstantLocators_loop h (locators @ [locator]) rest
      else ConstantLocators_loop h locators rest)"

definition ConstantLocators :: "Heap \<Rightarrow> ptr \<Rightarrow> ptr list" where
  "ConstantLocators h r = ConstantLocators_loop h [] (Locators h r)"

definition AddLocator ::
  "((ptr \<Rightarrow> ptr \<Rightarrow> bool) \<Rightarrow> ptr list \<Rightarrow> ptr list) \<Rightarrow> ptr \<Rightarrow> ptr option \<Rightarrow> Heap \<Rightarrow> Heap" where
  "AddLocator srt r locator h =
     (case locator of
        None \<Rightarrow> h
      | Some l \<Rightarrow>
          (let h1 = set_locators r (Locators h r @ [l]) h;
               h2 = set_locators r (srt (LocatorSlice_Less h1) (Locators h1 r)) h1
           in Locator_SetOwner l (Some r) h2))"

text \<open>A sequence of calls, each with a non-nil pointer, in the order of the list.\<close>

definition AddMethods ::
  "((ptr \<Rightarrow> ptr \<Rightarrow> bool) \<Rightarrow> ptr list \<Rightarrow> ptr list) \<Rightarrow> ptr \<Rightarrow> ptr list \<Rightarrow> Heap \<Rightarrow> Heap" where
  "AddMethods srt r ms h = foldl (\<lambda>h' m. AddMethod srt r (Some m) h') h ms"

definition AddLocators ::
  "((ptr \<Rightarrow> ptr \<Rightarrow> bool) \<Rightarrow> ptr list \<Rightarrow> ptr list) \<Rightarrow> ptr \<Rightarrow> ptr list \<Rightarrow> Heap \<Rightarrow> Heap" where
  "AddLocators srt r ls h = foldl (\<lambda>h' l. AddLocator srt r (Some l) h') h ls"

section \<open>The JavaScript types generator\<close>

subsection \<open>Collaborators\<close>

text \<open>
  Modelled from the spec: \<^verbatim>\<open>TypeReference\<close> and the three calculators are declared in
  files that are not among the sources. Of a \<^verbatim>\<open>TypeReference\<close> the generator only builds
  the zero value \<^verbatim>\<open>&TypeReference{}\<close>; one text field stands for its contents. The
  calculators are taken as parameters: the methods the generator calls, with their Go
  signatures. The graph does not change while the generator runs, so they are functions of
  the pointer they are given. A result of type \<^verbatim>\<open>*TypeReference\<close> may be nil.
\<close>

record TypeReference =
  TypeReference_text :: string

definition empty_TypeReference :: TypeReference where
  "empty_TypeReference = \<lparr>TypeReference_text = ''''\<rparr>"

record TypesCalculator =
  ValueReference :: "ptr \<Rightarrow> TypeReference option"
  NullableReference :: "ptr \<Rightarrow> TypeReference option"
  ListReference :: "ptr \<Rightarrow> TypeReference option"

record NamesCalculator =
  File :: "Name \<Rightarrow> string"
  Public :: "Name \<Rightarrow> string"
  Private :: "Name \<Rightarrow> string"

record PackagesCalculator =
  VersionPackage :: "ptr \<Rightarrow> string"

text \<open>
  Modelled from the spec: the reporter is declared in a package that is not among the
  sources. Its contract is narrow: report a message with formatted arguments. A report
  about an attribute is kept as the format string and the attribute it is about, a report
  of a failed write as its message; the log of a reporter is the list of the error
  reports it has received.
\<close>

datatype Report =
  AttributeReport string ptr
  | ErrorReport string

text \<open>
  Modelled from the spec: \<^verbatim>\<open>Buffer\<close> is declared in a file that is not among the sources.
  A buffer is bound to one reporter, one package and one file; \<^verbatim>\<open>Emit\<close> appends one
  rendered fragment to its body and \<^verbatim>\<open>Write\<close> persists the body. The text of a fragment
  is the business of the templates; a fragment is kept as the template it comes from,
  the type it is about and the getter types its helper calls returned.
\<close>

datatype Fragment =
  VersionMetadataTypeSource
  | EnumTypeSource ptr
  | StructTypeSource ptr "TypeReference list"

record Buffer =
  Buffer_reporter :: ptr
  Buffer_output :: string
  Buffer_packages :: PackagesCalculator
  Buffer_package :: string
  Buffer_file :: string
  Buffer_functions :: "string list"
  Buffer_body :: "Fragment list"

record OutputFile =
  OutputFile_output :: string
  OutputFile_package :: string
  OutputFile_name :: string
  OutputFile_body :: "Fragment list"

text \<open>A Go \<^verbatim>\<open>error\<close> made by \<^verbatim>\<open>fmt.Errorf\<close>, with its message.\<close>

datatype error = Error string

text \<open>
  Everything outside the generator object: the concept graph, the log of every reporter,
  the files written so far, and the two ways the environment can refuse a buffer
  (\<^verbatim>\<open>Build\<close> rejecting its configuration, \<^verbatim>\<open>Write\<close> failing on the file system), each a
  function of the package and the file name.
\<close>

record World =
  graph :: Heap
  reporter_log :: "ptr \<Rightarrow> Report list"
  disk :: "OutputFile list"
  build_error :: "string \<Rightarrow> string \<Rightarrow> error option"
  write_error :: "string \<Rightarrow> string \<Rightarrow> error option"

definition Reporter_Errorf :: "ptr \<Rightarrow> Report \<Rightarrow> World \<Rightarrow> World" where
  "Reporter_Errorf rep r w =
     w\<lparr>reporter_log := (reporter_log w)(rep := reporter_log w rep @ [r])\<rparr>"

subsection \<open>The builder and the generator\<close>

record TypesGeneratorBuilder =
  b_reporter :: "ptr option"
  b_model :: "ptr option"
  b_output :: string
  b_packages :: "PackagesCalculator option"
  b_names :: "NamesCalculator option"
  b_types :: "TypesCalculator option"

text \<open>The field \<^verbatim>\<open>output\<close> is written \<open>g_output\<close>: \<open>output\<close> is a reserved word here.\<close>

record TypesGenerator =
  reporter :: ptr
  errors :: int
  model :: ptr
  g_output :: string
  packages :: PackagesCalculator
  names :: NamesCalculator
  types :: TypesCalculator
  buffer :: "Buffer option"

subsection \<open>Attribute typing\<close>

text \<open>
  \<^verbatim>\<open>getterType\<close> and \<^verbatim>\<open>fieldType\<close>: a \<^verbatim>\<open>switch\<close> with no tag takes the first case that
  holds; when no case holds, or the calculator returned nil, \<^verbatim>\<open>ref\<close> is nil, the error
  is reported and the zero \<^verbatim>\<open>TypeReference\<close> is returned.
\<close>

text \<open>
  The two messages; the apostrophe is the byte 0x27.
\<close>

definition getterType_format :: string where
  "getterType_format =
     ''Don'' @ [CHR 0x27] @ ''t know how to calculate getter type for attribute '' @
     [CHR 0x27] @ ''%s'' @ [CHR 0x27]"

definition fieldType_format :: string where
  "fieldType_format =
     ''Don'' @ [CHR 0x27] @ ''t know how to calculate field type for attribute '' @
     [CHR 0x27] @ ''%s'' @ [CHR 0x27]"

definition getterType_ref :: "TypesGenerator \<Rightarrow> ptr \<Rightarrow> World \<Rightarrow> TypeReference option" where
  "getterType_ref g attribute w =
     (let typ = Attribute_type (attribute_at (graph w) attribute);
          t = type_at (graph w) typ
      in if IsScalar t then ValueReference (types g) typ
         else if IsStruct t then NullableReference (types g) typ
         else if IsList t then
           (if Attribute_link (attribute_at (graph w) attribute)
            then ListReference (types g) typ
            else NullableReference (types g) typ)
         else if IsMap t then NullableReference (types g) typ
         else None)"

definition getterType :: "TypesGenerator \<Rightarrow> ptr \<Rightarrow> World \<Rightarrow> TypeReference \<times> World" where
  "getterType g attribute w =
     (case getterType_ref g attribute w of
        None \<Rightarrow>
          (empty_TypeReference,
           Reporter_Errorf (reporter g)
             (AttributeReport getterType_format attribute) w)
      | Some ref \<Rightarrow> (ref, w))"

definition fieldType_ref :: "TypesGenerator \<Rightarrow> ptr \<Rightarrow> World \<Rightarrow> TypeReference option" where
  "fieldType_ref g attribute w =
     (let typ = Attribute_type (attribute_at (graph w) attribute);
          t = type_at (graph w) typ
      in if IsScalar t then NullableReference (types g) typ
         else if IsStruct t then NullableReference (types g) typ
         else if IsList t then
           (if Attribute_link (attribute_at (graph w) attribute)
            then ListReference (types g) typ
            else NullableReference (types g) typ)
         else if IsMap t then NullableReference (types g) typ
         else None)"

definition fieldType :: "TypesGenerator \<Rightarrow> ptr \<Rightarrow> World \<Rightarrow> TypeReference \<times> World" where
  "fieldType g attribute w =
     (case fieldType_ref g attribute w of
        None \<Rightarrow>
          (empty_TypeReference,
           Reporter_Errorf (reporter g)
             (AttributeReport fieldType_format attribute) w)
      | Some ref \<Rightarrow> (ref, w))"

subsection \<open>The other template helpers\<close>

definition metadataFile :: "TypesGenerator \<Rightarrow> string" where
  "metadataFile g = File (names g) (names_Cat nomenclator_Metadata nomenclator_Type)"

definition typeFile :: "TypesGenerator \<Rightarrow> ptr \<Rightarrow> World \<Rightarrow> string" where
  "typeFile g typ w =
     File (names g) (names_Cat (Type_name (type_at (graph w) typ)) nomenclator_Type)"

definition fieldName :: "TypesGenerator \<Rightarrow> ptr \<Rightarrow> World \<Rightarrow> string" where
  "fieldName g attribute w =
     Private (names g) (Attribute_name (attribute_at (graph w) attribute))"

definition getterName :: "TypesGenerator \<Rightarrow> ptr \<Rightarrow> World \<Rightarrow> string" where
  "getterName g attribute w =
     Public (names g) (Attribute_name (attribute_at (graph w) attribute))"

definition objectName :: "TypesGenerator \<Rightarrow> ptr \<Rightarrow> World \<Rightarrow> string" where
  "objectName g typ w = Public (names g) (Type_name (type_at (graph w) typ))"

definition listName :: "TypesGenerator \<Rightarrow> ptr \<Rightarrow> World \<Rightarrow> string" where
  "listName g typ w =
     Public (names g) (names_Cat (Type_name (type_at (graph w) typ)) nomenclator_List)"

subsection \<open>The buffer\<close>

text \<open>
  Modelled from the spec: \<^verbatim>\<open>NewBuffer() ... Build()\<close> yields the buffer bound to the given
  reporter, output, package and file, with an empty body, or a configuration error and
  no buffer; \<^verbatim>\<open>Emit\<close> appends a fragment; \<^verbatim>\<open>Write\<close> writes the body to the bound path, and
  on a file-system error reports the error and returns it, writing nothing.
\<close>

definition Buffer_Build ::
  "ptr \<Rightarrow> string \<Rightarrow> PackagesCalculator \<Rightarrow> string \<Rightarrow> string \<Rightarrow> string list \<Rightarrow> World \<Rightarrow>
     error + Buffer" where
  "Buffer_Build rep out pkgs pkg file funs w =
     (case build_error w pkg file of
        Some e \<Rightarrow> Inl e
      | None \<Rightarrow>
          Inr \<lparr>Buffer_reporter = rep, Buffer_output = out, Buffer_packages = pkgs,
               Buffer_package = pkg, Buffer_file = file, Buffer_functions = funs,
               Buffer_body = []\<rparr>)"

definition Buffer_Emit :: "Fragment \<Rightarrow> Buffer \<Rightarrow> Buffer" where
  "Buffer_Emit fragment b = b\<lparr>Buffer_body := Buffer_body b @ [fragment]\<rparr>"

fun error_message :: "error \<Rightarrow> string" where
  "error_message (Error msg) = msg"

definition Buffer_Write :: "Buffer \<Rightarrow> World \<Rightarrow> error option \<times> World" where
  "Buffer_Write b w =
     (case write_error w (Buffer_package b) (Buffer_file b) of
        Some e \<Rightarrow>
          (Some e, Reporter_Errorf (Buffer_reporter b) (ErrorReport (error_message e)) w)
      | None \<Rightarrow>
          (None,
           w\<lparr>disk := disk w @
               [\<lparr>OutputFile_output = Buffer_output b, OutputFile_package = Buffer_package b,
                 OutputFile_name = Buffer_file b, OutputFile_body = Buffer_body b\<rparr>]\<rparr>))"

subsection \<open>Generating one file\<close>

text \<open>
  \<^verbatim>\<open>g.buffer.Emit\<close> and \<^verbatim>\<open>g.buffer.Write\<close>: the buffer of the generator is the one
  \<^verbatim>\<open>Build\<close> has just returned, never nil where the source calls them. A nil buffer
  would be a nil dereference; it is written out as an error of its own, so that no
  branch is left without a value.
\<close>

definition nil_dereference :: error where
  "nil_dereference = Error ''invalid memory address or nil pointer dereference''"

definition emit :: "Fragment \<Rightarrow> TypesGenerator \<Rightarrow> TypesGenerator" where
  "emit fragment g = g\<lparr>buffer := map_option (Buffer_Emit fragment) (buffer g)\<rparr>"

definition generateVersionMetadataTypeSource ::
  "TypesGenerator \<Rightarrow> ptr \<Rightarrow> TypesGenerator" where
  "generateVersionMetadataTypeSource g version = emit VersionMetadataTypeSource g"

definition generateVersionMetadataTypeFile ::
  "TypesGenerator \<Rightarrow> ptr \<Rightarrow> World \<Rightarrow> error option \<times> TypesGenerator \<times> World" where
  "generateVersionMetadataTypeFile g version w =
     (let pkgName = VersionPackage (packages g) version;
          fileName = metadataFile g
      in case Buffer_Build (reporter g) (g_output g) (packages g) pkgName fileName [] w of
           Inl err \<Rightarrow> (Some err, g\<lparr>buffer := None\<rparr>, w)
         | Inr b \<Rightarrow>
             (let g1 = generateVersionMetadataTypeSource (g\<lparr>buffer := Some b\<rparr>) version
              in case buffer g1 of
                   None \<Rightarrow> (Some nil_dereference, g1, w)
                 | Some b1 \<Rightarrow> (case Buffer_Write b1 w of (err, w1) \<Rightarrow> (err, g1, w1))))"

definition generateEnumTypeSource :: "TypesGenerator \<Rightarrow> ptr \<Rightarrow> TypesGenerator" where
  "generateEnumTypeSource g typ = emit (EnumTypeSource typ) g"

text \<open>
  The struct template runs \<^verbatim>\<open>getterType\<close> once for every attribute of the type, in
  the order of \<^verbatim>\<open>.Type.Attributes\<close>; its other helpers only compute names.
\<close>

fun getterTypes ::
  "TypesGenerator \<Rightarrow> ptr list \<Rightarrow> World \<Rightarrow> TypeReference list \<times> World" where
  "getterTypes g [] w = ([], w)"
| "getterTypes g (attribute # rest) w =
     (case getterType g attribute w of
        (ref, w1) \<Rightarrow> (case getterTypes g rest w1 of (refs, w2) \<Rightarrow> (ref # refs, w2)))"

definition generateStructTypeSource ::
  "TypesGenerator \<Rightarrow> ptr \<Rightarrow> World \<Rightarrow> TypesGenerator \<times> World" where
  "generateStructTypeSource g typ w =
     (case getterTypes g (Type_attributes (type_at (graph w) typ)) w of
        (refs, w1) \<Rightarrow> (emit (StructTypeSource typ refs) g, w1))"

definition generateTypeSource ::
  "TypesGenerator \<Rightarrow> ptr \<Rightarrow> World \<Rightarrow> TypesGenerator \<times> World" where
  "generateTypeSource g typ w =
     (if IsEnum (type_at (graph w) typ) then (generateEnumTypeSource g typ, w)
      else if IsStruct (type_at (graph w) typ) then generateStructTypeSource g typ w
      else (g, w))"

definition type_functions :: "string list" where
  "type_functions =
     [''enumName'', ''fieldName'', ''fieldType'', ''getterName'', ''getterType'',
      ''listName'', ''objectName'', ''valueName'', ''valueTag'', ''zeroValue'']"

definition generateTypeFile ::
  "TypesGenerator \<Rightarrow> ptr \<Rightarrow> World \<Rightarrow> error option \<times> TypesGenerator \<times> World" where
  "generateTypeFile g typ w =
     (let pkgName = VersionPackage (packages g) (Type_owner (type_at (graph w) typ));
          fileName = typeFile g typ w
      in case Buffer_Build (reporter g) (g_output g) (packages g) pkgName fileName type_functions w of
           Inl err \<Rightarrow> (Some err, g\<lparr>buffer := None\<rparr>, w)
         | Inr b \<Rightarrow>
             (case generateTypeSource (g\<lparr>buffer := Some b\<rparr>) typ w of
                (g1, w1) \<Rightarrow>
                  (case buffer g1 of
                     None \<Rightarrow> (Some nil_dereference, g1, w1)
                   | Some b1 \<Rightarrow> (case Buffer_Write b1 w1 of (err, w2) \<Rightarrow> (err, g1, w2)))))"

subsection \<open>The run\<close>

text \<open>
  The three nested loops of \<^verbatim>\<open>Run\<close>. An error of a file is returned at once. In the loop
  over the types the variable \<^verbatim>\<open>err\<close> is nil at the head of every iteration (a non-nil
  value has left the function), so a type that is neither an enum nor a struct goes on to
  the next one.
\<close>

fun Run_types ::
  "TypesGenerator \<Rightarrow> ptr list \<Rightarrow> World \<Rightarrow> error option \<times> TypesGenerator \<times> World" where
  "Run_types g [] w = (None, g, w)"
| "Run_types g (typ # rest) w =
     (if IsEnum (type_at (graph w) typ) \<or> IsStruct (type_at (graph w) typ)
      then (case generateTypeFile g typ w of
              (Some err, g1, w1) \<Rightarrow> (Some err, g1, w1)
            | (None, g1, w1) \<Rightarrow> Run_types g1 rest w1)
      else Run_types g rest w)"

fun Run_versions ::
  "TypesGenerator \<Rightarrow> ptr list \<Rightarrow> World \<Rightarrow> error option \<times> TypesGenerator \<times> World" where
  "Run_versions g [] w = (None, g, w)"
| "Run_versions g (version # rest) w =
     (case generateVersionMetadataTypeFile g version w of
        (Some err, g1, w1) \<Rightarrow> (Some err, g1, w1)
      | (None, g1, w1) \<Rightarrow>
          (case Run_types g1 (Version_types (version_at (graph w1) version)) w1 of
             (Some err, g2, w2) \<Rightarrow> (Some err, g2, w2)
           | (None, g2, w2) \<Rightarrow> Run_versions g2 rest w2))"

fun Run_services ::
  "TypesGenerator \<Rightarrow> ptr list \<Rightarrow> World \<Rightarrow> error option \<times> TypesGenerator \<times> World" where
  "Run_services g [] w = (None, g, w)"
| "Run_services g (service # rest) w =
     (case Run_versions g (Service_versions (service_at (graph w) service)) w of
        (Some err, g1, w1) \<Rightarrow> (Some err, g1, w1)
      | (None, g1, w1) \<Rightarrow> Run_services g1 rest w1)"

text \<open>\<^verbatim>\<open>%d\<close> of \<^verbatim>\<open>fmt\<close>: the decimal digits of an integer, with a minus sign when negative.\<close>

definition digit_char :: "nat \<Rightarrow> char" where
  "digit_char d = char_of (48 + d)"

function decimal :: "nat \<Rightarrow> string" where
  "decimal n = (if n < 10 then [digit_char n] else decimal (n div 10) @ [digit_char (n mod 10)])"
  by pat_completeness auto
termination
  by (relation "measure id") auto

declare decimal.simps [simp del]

definition Sprintf_d :: "int \<Rightarrow> string" where
  "Sprintf_d i = (if i < 0 then ''-'' @ decimal (nat (- i)) else decimal (nat i))"

definition Run :: "TypesGenerator \<Rightarrow> World \<Rightarrow> error option \<times> TypesGenerator \<times> World" where
  "Run g w =
     (case Run_services g (Model_services (model_at (graph w) (model g))) w of
        (Some err, g1, w1) \<Rightarrow> (Some err, g1, w1)
      | (None, g1, w1) \<Rightarrow>
          (if errors g1 > 0 then
             (if errors g1 > 1
              then (Some (Error (''there were '' @ Sprintf_d (errors g1) @ '' errors'')), g1, w1)
              else (Some (Error ''there was 1 error''), g1, w1))
           else (None, g1, w1)))"

subsection \<open>Building the generator\<close>

definition NewTypesGenerator :: TypesGeneratorBuilder where
  "NewTypesGenerator =
     \<lparr>b_reporter = None, b_model = None, b_output = [], b_packages = None,
      b_names = None, b_types = None\<rparr>"

text \<open>The setters of the builder; each returns the builder it was called on.\<close>

definition Reporter :: "ptr option \<Rightarrow> TypesGeneratorBuilder \<Rightarrow> TypesGeneratorBuilder" where
  "Reporter value b = b\<lparr>b_reporter := value\<rparr>"

definition Model :: "ptr option \<Rightarrow> TypesGeneratorBuilder \<Rightarrow> TypesGeneratorBuilder" where
  "Model value b = b\<lparr>b_model := value\<rparr>"

definition Output :: "string \<Rightarrow> TypesGeneratorBuilder \<Rightarrow> TypesGeneratorBuilder" where
  "Output value b = b\<lparr>b_output := value\<rparr>"

definition Packages ::
  "PackagesCalculator option \<Rightarrow> TypesGeneratorBuilder \<Rightarrow> TypesGeneratorBuilder" where
  "Packages value b = b\<lparr>b_packages := value\<rparr>"

definition Names ::
  "NamesCalculator option \<Rightarrow> TypesGeneratorBuilder \<Rightarrow> TypesGeneratorBuilder" where
  "Names value b = b\<lparr>b_names := value\<rparr>"

definition Types ::
  "TypesCalculator option \<Rightarrow> TypesGeneratorBuilder \<Rightarrow> TypesGeneratorBuilder" where
  "Types value b = b\<lparr>b_types := value\<rparr>"

definition Build :: "TypesGeneratorBuilder \<Rightarrow> TypesGenerator option \<times> error option" where
  "Build b =
     (case b_reporter b of
        None \<Rightarrow> (None, Some (Error ''reporter is mandatory''))
      | Some rep \<Rightarrow>
     (case b_model b of
        None \<Rightarrow> (None, Some (Error ''model is mandatory''))
      | Some mdl \<Rightarrow>
     (if b_output b = [] then (None, Some (Error ''output is mandatory''))
      else
     (case b_packages b of
        None \<Rightarrow> (None, Some (Error ''packages calculator is mandatory''))
      | Some pkgs \<Rightarrow>
     (case b_names b of
        None \<Rightarrow> (None, Some (Error ''names calculator is mandatory''))
      | Some nms \<Rightarrow>
     (case b_types b of
        None \<Rightarrow> (None, Some (Error ''types calculator is mandatory''))
      | Some tps \<Rightarrow>
          (Some \<lparr>reporter = rep, errors = 0, model = mdl, g_output = b_output b,
                 packages = pkgs, names = nms, types = tps, buffer = None\<rparr>,
           None)))))))"

section \<open>Statements about the builder\<close>

text \<open>
  The six mandatory dependencies of the builder, in the order \<^verbatim>\<open>Build\<close> checks them, the
  word each is called by in its message, and what it means for a message to list every
  missing one.
\<close>

datatype Dependency =
  ReporterDep | ModelDep | OutputDep | PackagesDep | NamesDep | TypesDep

fun is_unset :: "TypesGeneratorBuilder \<Rightarrow> Dependency \<Rightarrow> bool" where
  "is_unset b ReporterDep = (b_reporter b = None)"
| "is_unset b ModelDep = (b_model b = None)"
| "is_unset b OutputDep = (b_output b = [])"
| "is_unset b PackagesDep = (b_packages b = None)"
| "is_unset b NamesDep = (b_names b = None)"
| "is_unset b TypesDep = (b_types b = None)"

definition unset_dependencies :: "TypesGeneratorBuilder \<Rightarrow> Dependency list" where
  "unset_dependencies b =
     filter (is_unset b) [ReporterDep, ModelDep, OutputDep, PackagesDep, NamesDep, TypesDep]"

fun dependency_label :: "Dependency \<Rightarrow> string" where
  "dependency_label ReporterDep = ''reporter''"
| "dependency_label ModelDep = ''model''"
| "dependency_label OutputDep = ''output''"
| "dependency_label PackagesDep = ''packages calculator''"
| "dependency_label NamesDep = ''names calculator''"
| "dependency_label TypesDep = ''types calculator''"

fun starts_with :: "string \<Rightarrow> string \<Rightarrow> bool" where
  "starts_with [] s = True"
| "starts_with (p # ps) [] = False"
| "starts_with (p # ps) (c # cs) = (p = c \<and> starts_with ps cs)"

fun contains :: "string \<Rightarrow> string \<Rightarrow> bool" where
  "contains p [] = (p = [])"
| "contains p (c # cs) = (starts_with p (c # cs) \<or> contains p cs)"

definition lists_every_missing :: "TypesGeneratorBuilder \<Rightarrow> string \<Rightarrow> bool" where
  "lists_every_missing b msg =
     list_all (\<lambda>d. contains (dependency_label d) msg) (unset_dependencies b)"


section \<open>Statements about the collections of a resource\<close>

text \<open>
  A collection of objects is sorted by name when no element comes after one whose name
  is greater in the order of \<^verbatim>\<open>names.Compare\<close>. A lookup result is the first element
  of the collection with a property, or nil when no element has it.
\<close>

definition sorted_by_name :: "(ptr \<Rightarrow> Name) \<Rightarrow> ptr list \<Rightarrow> bool" where
  "sorted_by_name name_of xs \<longleftrightarrow>
     sorted_wrt (\<lambda>a b. names_Compare (name_of a) (name_of b) \<le> 0) xs"

definition is_first_where :: "('a \<Rightarrow> bool) \<Rightarrow> 'a list \<Rightarrow> 'a option \<Rightarrow> bool" where
  "is_first_where P xs result \<longleftrightarrow>
     (case result of
        None \<Rightarrow> (\<forall>x \<in> set xs. \<not> P x)
      | Some x \<Rightarrow> (\<exists>i < length xs. xs ! i = x \<and> P x \<and> (\<forall>j < i. \<not> P (xs ! j))))"


section \<open>Statements about the run\<close>

text \<open>
  What a run is expected to leave on the disk, computed from the graph alone: for every
  version of every service, in order, the metadata file and then one file for each of
  its types that is an enum or a struct. A unit is the package and the name of a file.
\<close>

definition unit_of :: "OutputFile \<Rightarrow> string \<times> string" where
  "unit_of f = (OutputFile_package f, OutputFile_name f)"

definition generated_type :: "Heap \<Rightarrow> ptr \<Rightarrow> bool" where
  "generated_type h typ \<longleftrightarrow> IsEnum (type_at h typ) \<or> IsStruct (type_at h typ)"

definition metadata_unit :: "TypesGenerator \<Rightarrow> ptr \<Rightarrow> string \<times> string" where
  "metadata_unit g version =
     (VersionPackage (packages g) version,
      File (names g) (names_Cat nomenclator_Metadata nomenclator_Type))"

definition type_unit :: "TypesGenerator \<Rightarrow> Heap \<Rightarrow> ptr \<Rightarrow> string \<times> string" where
  "type_unit g h typ =
     (VersionPackage (packages g) (Type_owner (type_at h typ)),
      File (names g) (names_Cat (Type_name (type_at h typ)) nomenclator_Type))"

definition version_units :: "TypesGenerator \<Rightarrow> Heap \<Rightarrow> ptr \<Rightarrow> (string \<times> string) list" where
  "version_units g h version =
     metadata_unit g version #
     map (type_unit g h) (filter (generated_type h) (Version_types (version_at h version)))"

definition model_versions :: "Heap \<Rightarrow> ptr \<Rightarrow> ptr list" where
  "model_versions h m =
     concat (map (\<lambda>service. Service_versions (service_at h service))
       (Model_services (model_at h m)))"

definition expected_units :: "TypesGenerator \<Rightarrow> Heap \<Rightarrow> (string \<times> string) list" where
  "expected_units g h = concat (map (version_units g h) (model_versions h (model g)))"

text \<open>
  The reports a run is expected to make when no file is refused: one for each attribute
  of a struct that \<^verbatim>\<open>getterType\<close> finds no reference for, in the order of the traversal.
\<close>

definition unresolved_attributes :: "TypesGenerator \<Rightarrow> World \<Rightarrow> ptr \<Rightarrow> ptr list" where
  "unresolved_attributes g w typ =
     (if IsStruct (type_at (graph w) typ)
      then filter (\<lambda>attribute. getterType_ref g attribute w = None)
             (Type_attributes (type_at (graph w) typ))
      else [])"

definition type_reports :: "TypesGenerator \<Rightarrow> World \<Rightarrow> ptr \<Rightarrow> Report list" where
  "type_reports g w typ =
     map (AttributeReport getterType_format) (unresolved_attributes g w typ)"

definition version_reports :: "TypesGenerator \<Rightarrow> World \<Rightarrow> ptr \<Rightarrow> Report list" where
  "version_reports g w version =
     concat (map (type_reports g w)
       (filter (generated_type (graph w)) (Version_types (version_at (graph w) version))))"

definition expected_reports :: "TypesGenerator \<Rightarrow> World \<Rightarrow> Report list" where
  "expected_reports g w =
     concat (map (version_reports g w) (model_versions (graph w) (model g)))"

definition never_refuses :: "World \<Rightarrow> bool" where
  "never_refuses w \<longleftrightarrow>
     (\<forall>pkg file. build_error w pkg file = None \<and> write_error w pkg file = None)"

text \<open>
  What a step of the run keeps and what it adds: the generator keeps everything but its
  buffer; the world keeps the graph and the behaviour of the environment; the files
  written and the reports made are appended to the disk and to the log of the reporter.
\<close>

definition tools_kept :: "TypesGenerator \<Rightarrow> TypesGenerator \<Rightarrow> bool" where
  "tools_kept g g1 \<longleftrightarrow>
     reporter g1 = reporter g \<and> errors g1 = errors g \<and> model g1 = model g \<and>
     g_output g1 = g_output g \<and> packages g1 = packages g \<and> names g1 = names g \<and>
     types g1 = types g"

definition world_kept :: "World \<Rightarrow> World \<Rightarrow> bool" where
  "world_kept w w1 \<longleftrightarrow>
     graph w1 = graph w \<and> build_error w1 = build_error w \<and> write_error w1 = write_error w"

definition effect ::
  "ptr \<Rightarrow> World \<Rightarrow> World \<Rightarrow> (string \<times> string) list \<Rightarrow> Report list \<Rightarrow> bool" where
  "effect rep w w1 units reports \<longleftrightarrow>
     world_kept w w1 \<and>
     (\<exists>files. disk w1 = disk w @ files \<and> map unit_of files = units) \<and>
     reporter_log w1 = (reporter_log w)(rep := reporter_log w rep @ reports)"

text \<open>Reading a decimal numeral back, to say that a message carries the precise count.\<close>

definition read_decimal :: "string \<Rightarrow> nat" where
  "read_decimal s = foldl (\<lambda>n c. 10 * n + (of_char c - 48)) 0 s"


section \<open>Example data\<close>

text \<open>
  A graph with one service and one version. The version has the types 1 to 11: the
  types 1 to 9 are structs with the one attribute 0, of struct type; the type 10 is an
  enum; the type 11 is a struct with the attributes 1 and 5. The attribute 5 has the
  enum as its type; the attribute 1 has the type 14, whose kind is none of the six. The
  type 12 is a scalar, the type 13 a list; the attributes 2, 3 and 4 have the scalar,
  the list as a link, and the list as embedded data as their types. The resource 0 is
  new; the locators 1 and 2 are variable.
\<close>

definition example_type :: "ptr \<Rightarrow> Type" where
  "example_type p =
     \<lparr>Type_owner = 0,
      Type_name =
        (if p = 10 then [''color''] else if p = 11 then [''paint'']
         else if p = 12 then [''string''] else if p = 13 then [''node'', ''list'']
         else if p = 14 then [''mystery'']
         else [''node'', replicate p (CHR ''i'')]),
      Type_kind =
        (if p = 10 then EnumType else if p = 12 then ScalarType
         else if p = 13 then ListType else if p = 14 then UnknownType else StructType),
      Type_attributes =
        (if p = 10 \<or> p = 12 \<or> p = 13 \<or> p = 14 then []
         else if p = 11 then [1, 5] else [0])\<rparr>"

definition example_attribute :: "ptr \<Rightarrow> Attribute" where
  "example_attribute p =
     \<lparr>Attribute_name =
        (if p = 1 then [''finish''] else if p = 5 then [''shade''] else [''next'']),
      Attribute_type =
        (if p = 1 then 14 else if p = 2 then 12 else if p = 3 \<or> p = 4 then 13
         else if p = 5 then 10 else 1),
      Attribute_link = (p = 3)\<rparr>"

definition example_method :: "ptr \<Rightarrow> Method" where
  "example_method p =
     \<lparr>Method_owner = None,
      Method_name = (if p = 1 then [''list''] else if p = 2 then [''Add''] else [''get''])\<rparr>"

definition example_locator :: "ptr \<Rightarrow> Locator" where
  "example_locator p =
     \<lparr>Locator_owner = None,
      Locator_name = (if p = 1 then [''id''] else if p = 2 then [''name''] else [''credentials'']),
      Locator_variable = (p = 1 \<or> p = 2)\<rparr>"

definition example_graph :: Heap where
  "example_graph =
     \<lparr>resource_at = (\<lambda>p. zero_Resource),
      method_at = example_method,
      locator_at = example_locator,
      model_at = (\<lambda>p. \<lparr>Model_services = [0]\<rparr>),
      service_at = (\<lambda>p. \<lparr>Service_versions = [0]\<rparr>),
      version_at = (\<lambda>p. \<lparr>Version_types = [1, 2, 3, 4, 5, 6, 7, 8, 9, 10, 11]\<rparr>),
      type_at = example_type,
      attribute_at = example_attribute\<rparr>"


definition example_world :: World where
  "example_world =
     \<lparr>graph = example_graph, reporter_log = (\<lambda>p. []), disk = [],
      build_error = (\<lambda>pkg file. None), write_error = (\<lambda>pkg file. None)\<rparr>"

definition example_types :: TypesCalculator where
  "example_types =
     \<lparr>ValueReference = (\<lambda>typ. Some \<lparr>TypeReference_text = ''value''\<rparr>),
      NullableReference = (\<lambda>typ. Some \<lparr>TypeReference_text = ''nullable''\<rparr>),
      ListReference = (\<lambda>typ. Some \<lparr>TypeReference_text = ''list''\<rparr>)\<rparr>"

definition example_names :: NamesCalculator where
  "example_names =
     \<lparr>File = (\<lambda>name. concat name @ ''.js''), Public = concat, Private = concat\<rparr>"

definition example_packages :: PackagesCalculator where
  "example_packages = \<lparr>VersionPackage = (\<lambda>version. ''v1'')\<rparr>"

definition example_builder :: TypesGeneratorBuilder where
  "example_builder =
     \<lparr>b_reporter = Some 0, b_model = Some 0, b_output = ''out'',
      b_packages = Some example_packages, b_names = Some example_names,
      b_types = Some example_types\<rparr>"

definition example_generator :: TypesGenerator where
  "example_generator =
     \<lparr>reporter = 0, errors = 0, model = 0, g_output = ''out'',
      packages = example_packages, names = example_names, types = example_types,
      buffer = None\<rparr>"

text \<open>
  Two variants: a graph whose model has no service, and a world whose version holds a
  scalar, the enum, a list and the struct with the attribute of unknown kind.
\<close>

definition empty_world :: World where
  "empty_world =
     \<lparr>graph = example_graph\<lparr>model_at := (\<lambda>p. \<lparr>Model_services = []\<rparr>)\<rparr>,
      reporter_log = (\<lambda>p. []), disk = [],
      build_error = (\<lambda>pkg file. None), write_error = (\<lambda>pkg file. None)\<rparr>"

definition mixed_world :: World where
  "mixed_world =
     \<lparr>graph = example_graph\<lparr>version_at := (\<lambda>p. \<lparr>Version_types = [12, 10, 13, 11]\<rparr>)\<rparr>,
      reporter_log = (\<lambda>p. []), disk = [],
      build_error = (\<lambda>pkg file. None), write_error = (\<lambda>pkg file. None)\<rparr>"

section \<open>Attribute typing\<close>

text \<open>
  C3. For every attribute whose value type is scalar, \<^verbatim>\<open>fieldType\<close> yields the nullable
  reference of that type and \<^verbatim>\<open>getterType\<close> yields its value reference: whatever
  references the types calculator hands out for the type, these are the results, and
  nothing is reported.
\<close>

theorem scalar_attribute_types:
  assumes "IsScalar (type_at (graph w) (Attribute_type (attribute_at (graph w) attribute)))"
    and "NullableReference (types g) (Attribute_type (attribute_at (graph w) attribute)) =
           Some nullable"
    and "ValueReference (types g) (Attribute_type (attribute_at (graph w) attribute)) =
           Some val"
  shows "fieldType g attribute w = (nullable, w) \<and> getterType g attribute w = (val, w)"
  using assms
  by (simp add: fieldType_def getterType_def fieldType_ref_def getterType_ref_def)

theorem scalar_attribute_types_witness:
  "IsScalar (type_at (graph example_world)
      (Attribute_type (attribute_at (graph example_world) 2))) \<and>
   fieldType example_generator 2 example_world =
     (\<lparr>TypeReference_text = ''nullable''\<rparr>, example_world) \<and>
   getterType example_generator 2 example_world =
     (\<lparr>TypeReference_text = ''value''\<rparr>, example_world)"
  using scalar_attribute_types [of example_world 2 example_generator
      "\<lparr>TypeReference_text = ''nullable''\<rparr>" "\<lparr>TypeReference_text = ''value''\<rparr>"]
  by (simp add: example_world_def example_graph_def example_attribute_def example_type_def
      example_generator_def example_types_def IsScalar_def)

text \<open>
  C4. For every attribute whose value type is a list: when the attribute is a link, both
  \<^verbatim>\<open>fieldType\<close> and \<^verbatim>\<open>getterType\<close> yield the list reference of that type; when it is not,
  both yield the nullable reference of that type.
\<close>

theorem list_attribute_types:
  assumes "IsList (type_at (graph w) (Attribute_type (attribute_at (graph w) attribute)))"
    and "(if Attribute_link (attribute_at (graph w) attribute)
          then ListReference (types g) (Attribute_type (attribute_at (graph w) attribute))
          else NullableReference (types g) (Attribute_type (attribute_at (graph w) attribute))) =
           Some ref"
  shows "fieldType g attribute w = (ref, w) \<and> getterType g attribute w = (ref, w)"
  using assms
  by (simp add: fieldType_def getterType_def fieldType_ref_def getterType_ref_def
      IsList_def IsScalar_def IsStruct_def split: if_splits)

theorem list_attribute_types_witness:
  "IsList (type_at (graph example_world)
      (Attribute_type (attribute_at (graph example_world) 3))) \<and>
   Attribute_link (attribute_at (graph example_world) 3) \<and>
   fieldType example_generator 3 example_world =
     (\<lparr>TypeReference_text = ''list''\<rparr>, example_world) \<and>
   getterType example_generator 3 example_world =
     (\<lparr>TypeReference_text = ''list''\<rparr>, example_world) \<and>
   IsList (type_at (graph example_world)
      (Attribute_type (attribute_at (graph example_world) 4))) \<and>
   \<not> Attribute_link (attribute_at (graph example_world) 4) \<and>
   fieldType example_generator 4 example_world =
     (\<lparr>TypeReference_text = ''nullable''\<rparr>, example_world) \<and>
   getterType example_generator 4 example_world =
     (\<lparr>TypeReference_text = ''nullable''\<rparr>, example_world)"
  using list_attribute_types [of example_world 3 example_generator
      "\<lparr>TypeReference_text = ''list''\<rparr>"]
    list_attribute_types [of example_world 4 example_generator
      "\<lparr>TypeReference_text = ''nullable''\<rparr>"]
  by (simp add: example_world_def example_graph_def example_attribute_def example_type_def
      example_generator_def example_types_def IsList_def)


section \<open>Nil additions\<close>

text \<open>
  C8. For every resource, \<^verbatim>\<open>AddMethod(nil)\<close> and \<^verbatim>\<open>AddLocator(nil)\<close> are no-ops and signal
  no failure: the heap after the call is the heap before it, so the methods and the
  locators of every resource, their order, and the owner of every method and of every
  locator are as before.
\<close>

theorem nil_additions_are_noops:
  "AddMethod srt r None h = h \<and> AddLocator srt r None h = h \<and>
   Methods (AddMethod srt r None h) r' = Methods h r' \<and>
   Locators (AddLocator srt r None h) r' = Locators h r' \<and>
   Method_owner (method_at (AddMethod srt r None h) m) = Method_owner (method_at h m) \<and>
   Locator_owner (locator_at (AddLocator srt r None h) l) = Locator_owner (locator_at h l)"
  by (simp add: AddMethod_def AddLocator_def)


section \<open>The builder\<close>

lemma Build_all_set:
  assumes "unset_dependencies b = []"
  shows "\<exists>rep mdl pkgs nms tps.
           b_reporter b = Some rep \<and> b_model b = Some mdl \<and> b_output b \<noteq> [] \<and>
           b_packages b = Some pkgs \<and> b_names b = Some nms \<and> b_types b = Some tps"
  using assms by (auto simp: unset_dependencies_def split: if_splits)

text \<open>
  C7, as the code has it. For every builder with at least one mandatory dependency
  unset, \<^verbatim>\<open>Build\<close> returns a nil generator and a configuration error that names the
  first unset dependency, in the order reporter, model, output, packages calculator,
  names calculator, types calculator; when all six are set, it returns a generator
  holding them, with no error counted and no buffer, and a nil error.
\<close>

theorem Build_names_first_unset:
  "(unset_dependencies b \<noteq> [] \<longrightarrow>
      Build b =
        (None, Some (Error (dependency_label (hd (unset_dependencies b)) @ '' is mandatory'')))) \<and>
   (unset_dependencies b = [] \<longrightarrow>
      (\<exists>g. Build b = (Some g, None) \<and> b_reporter b = Some (reporter g) \<and>
           b_model b = Some (model g) \<and> b_output b = g_output g \<and>
           b_packages b = Some (packages g) \<and> b_names b = Some (names g) \<and>
           b_types b = Some (types g) \<and> errors g = 0 \<and> buffer g = None))"
proof (intro conjI impI)
  assume "unset_dependencies b \<noteq> []"
  then show "Build b =
      (None, Some (Error (dependency_label (hd (unset_dependencies b)) @ '' is mandatory'')))"
    by (auto simp: unset_dependencies_def Build_def split: option.splits if_splits)
next
  assume "unset_dependencies b = []"
  from Build_all_set [OF this] show "\<exists>g. Build b = (Some g, None) \<and>
      b_reporter b = Some (reporter g) \<and> b_model b = Some (model g) \<and>
      b_output b = g_output g \<and> b_packages b = Some (packages g) \<and>
      b_names b = Some (names g) \<and> b_types b = Some (types g) \<and> errors g = 0 \<and>
      buffer g = None"
    by (auto simp: Build_def)
qed

theorem Build_names_first_unset_witness:
  "unset_dependencies (example_builder\<lparr>b_model := None, b_names := None\<rparr>) \<noteq> [] \<and>
   Build (example_builder\<lparr>b_model := None, b_names := None\<rparr>) =
     (None, Some (Error ''model is mandatory'')) \<and>
   unset_dependencies example_builder = [] \<and>
   Build example_builder = (Some example_generator, None)"
  using Build_names_first_unset [of "example_builder\<lparr>b_model := None, b_names := None\<rparr>"]
    Build_names_first_unset [of example_builder]
  by (simp add: unset_dependencies_def example_builder_def example_generator_def Build_def)

text \<open>
  C7, as the claim has it, fails: with nothing set, six dependencies are missing and the
  error is about the reporter alone; it does not mention the model.
\<close>

theorem Build_lists_every_missing_counterexample:
  "unset_dependencies NewTypesGenerator =
     [ReporterDep, ModelDep, OutputDep, PackagesDep, NamesDep, TypesDep] \<and>
   Build NewTypesGenerator = (None, Some (Error ''reporter is mandatory'')) \<and>
   \<not> contains (dependency_label ModelDep) ''reporter is mandatory'' \<and>
   \<not> lists_every_missing NewTypesGenerator ''reporter is mandatory''"
  by (simp add: unset_dependencies_def NewTypesGenerator_def Build_def lists_every_missing_def)

section \<open>The order on names\<close>

lemma names_Compare_less: "names_Compare a b = - 1 \<longleftrightarrow> name_key a < name_key b"
  by (simp add: names_Compare_def)

lemma names_Compare_le: "names_Compare a b \<le> 0 \<longleftrightarrow> name_key a \<le> name_key b"
  by (auto simp: names_Compare_def)

lemma names_Compare_eq: "names_Compare a b = 0 \<longleftrightarrow> name_key a = name_key b"
  by (simp add: names_Compare_def)

lemma Name_Equals_key: "Name_Equals a b \<longleftrightarrow> name_key a = name_key b"
proof -
  have "name_key a = name_key b \<longleftrightarrow> list_all2 (=) (map word_key a) (map word_key b)"
    by (simp add: name_key_def list.rel_eq)
  also have "\<dots> \<longleftrightarrow> list_all2 (\<lambda>u v. word_key u = word_key v) a b"
    by (simp add: list.rel_map)
  finally show ?thesis
    by (auto simp: Name_Equals_def dest: list_all2_lengthD)
qed

lemma Name_Equals_Compare: "Name_Equals a b \<longleftrightarrow> names_Compare a b = 0"
  by (simp add: Name_Equals_key names_Compare_eq)

lemma key_order_transitive:
  fixes key :: "'a \<Rightarrow> 'k::linorder"
  shows "transitive_ordering (\<lambda>a b. key a < key b)"
  by (auto simp: transitive_ordering_def)

lemma MethodSlice_Less_transitive: "transitive_ordering (MethodSlice_Less h)"
  using key_order_transitive [of "\<lambda>m. name_key (Method_name (method_at h m))"]
  by (simp add: MethodSlice_Less_def [abs_def] names_Compare_less)

lemma LocatorSlice_Less_transitive: "transitive_ordering (LocatorSlice_Less h)"
  using key_order_transitive [of "\<lambda>l. name_key (Locator_name (locator_at h l))"]
  by (simp add: LocatorSlice_Less_def [abs_def] names_Compare_less)

lemma ascending_methods_sorted:
  assumes "ascending (MethodSlice_Less h) xs"
  shows "sorted_by_name (\<lambda>m. Method_name (method_at h m)) xs"
  using assms unfolding ascending_def sorted_by_name_def
  by (rule sorted_wrt_mono_rel [rotated])
    (auto simp: MethodSlice_Less_def names_Compare_less names_Compare_le)

lemma ascending_locators_sorted:
  assumes "ascending (LocatorSlice_Less h) xs"
  shows "sorted_by_name (\<lambda>l. Locator_name (locator_at h l)) xs"
  using assms unfolding ascending_def sorted_by_name_def
  by (rule sorted_wrt_mono_rel [rotated])
    (auto simp: LocatorSlice_Less_def names_Compare_less names_Compare_le)

section \<open>The insertion sort meets the contract\<close>

lemma mset_sift: "mset (sift lt x ys) = add_mset x (mset ys)"
  by (induction ys) auto

lemma set_sift: "set (sift lt x ys) = insert x (set ys)"
  by (induction ys) auto

lemma sift_descending:
  assumes ord: "transitive_ordering lt"
  shows "sorted_wrt (\<lambda>a b. \<not> lt a b) ys \<Longrightarrow> sorted_wrt (\<lambda>a b. \<not> lt a b) (sift lt x ys)"
proof (induction ys)
  case Nil
  show ?case by simp
next
  case (Cons y ys)
  from ord have asym: "\<And>a b. lt a b \<Longrightarrow> \<not> lt b a"
    and ntrans: "\<And>a b c. \<not> lt a b \<Longrightarrow> \<not> lt b c \<Longrightarrow> \<not> lt a c"
    unfolding transitive_ordering_def by blast+
  show ?case
  proof (cases "lt x y")
    case True
    with Cons asym show ?thesis
      by (auto simp: set_sift)
  next
    case False
    with Cons.prems ntrans show ?thesis
      by auto
  qed
qed

lemma foldl_sift:
  assumes ord: "transitive_ordering lt"
  shows "sorted_wrt (\<lambda>a b. \<not> lt a b) acc \<Longrightarrow>
    sorted_wrt (\<lambda>a b. \<not> lt a b) (foldl (\<lambda>prefix x. sift lt x prefix) acc xs) \<and>
    mset (foldl (\<lambda>prefix x. sift lt x prefix) acc xs) = mset acc + mset xs"
proof (induction xs arbitrary: acc)
  case Nil
  then show ?case by simp
next
  case (Cons x xs)
  from Cons.IH [OF sift_descending [OF ord Cons.prems, of x]] show ?case
    by (simp add: mset_sift)
qed

lemma insertionSort_contract: "sort_contract insertionSort"
  unfolding sort_contract_def
proof (intro allI impI)
  fix lt :: "'a \<Rightarrow> 'a \<Rightarrow> bool" and xs
  assume ord: "transitive_ordering lt"
  from foldl_sift [OF ord, of "[]" xs]
  show "mset (insertionSort lt xs) = mset xs \<and> ascending lt (insertionSort lt xs)"
    by (simp add: insertionSort_def ascending_def sorted_wrt_rev)
qed

section \<open>Lookups\<close>

lemma is_first_where_find: "is_first_where P xs (find P xs)"
proof (cases "find P xs")
  case None
  then have "\<forall>x\<in>set xs. \<not> P x"
    by (simp add: find_None_iff)
  with None show ?thesis
    by (simp add: is_first_where_def)
next
  case (Some x)
  then have "\<exists>i<length xs. xs ! i = x \<and> P x \<and> (\<forall>j<i. \<not> P (xs ! j))"
    by (auto simp: find_Some_iff)
  with Some show ?thesis
    by (simp add: is_first_where_def)
qed

lemma FindMethod_loop_find:
  "FindMethod_loop h name xs = find (\<lambda>m. Name_Equals (Method_name (method_at h m)) name) xs"
  by (induction xs) auto

lemma VariableLocator_loop_find:
  "VariableLocator_loop h xs = find (\<lambda>l. Locator_variable (locator_at h l)) xs"
  by (induction xs) auto

lemma ConstantLocators_loop_filter:
  "ConstantLocators_loop h acc xs =
     acc @ filter (\<lambda>l. \<not> Locator_variable (locator_at h l)) xs"
  by (induction xs arbitrary: acc) auto

lemma sorted_by_name_filter:
  "sorted_by_name name_of xs \<Longrightarrow> sorted_by_name name_of (filter P xs)"
  by (simp add: sorted_by_name_def sorted_wrt_filter)

section \<open>One addition\<close>

lemma AddMethod_methods:
  "Methods (AddMethod srt r (Some m) h) r = srt (MethodSlice_Less h) (Methods h r @ [m])"
  by (simp add: AddMethod_def Let_def Methods_def set_methods_def Method_SetOwner_def
      MethodSlice_Less_def [abs_def])

lemma AddMethod_names:
  "Method_name (method_at (AddMethod srt r (Some m) h) x) = Method_name (method_at h x)"
  by (simp add: AddMethod_def Let_def set_methods_def Method_SetOwner_def)

lemma AddLocator_locators:
  "Locators (AddLocator srt r (Some l) h) r =
     srt (LocatorSlice_Less h) (Locators h r @ [l])"
  by (simp add: AddLocator_def Let_def Locators_def set_locators_def Locator_SetOwner_def
      LocatorSlice_Less_def [abs_def])

lemma AddLocator_fields:
  "Locator_name (locator_at (AddLocator srt r (Some l) h) x) = Locator_name (locator_at h x)"
  "Locator_variable (locator_at (AddLocator srt r (Some l) h) x) =
     Locator_variable (locator_at h x)"
  by (simp_all add: AddLocator_def Let_def set_locators_def Locator_SetOwner_def)

section \<open>Sequences of additions\<close>

lemma sort_contractD:
  assumes "sort_contract srt" and "transitive_ordering lt"
  shows "mset (srt lt xs) = mset xs" and "ascending lt (srt lt xs)"
  using assms by (simp_all add: sort_contract_def)

lemma AddMethods_snoc:
  "AddMethods srt r (ms @ [m]) h = AddMethod srt r (Some m) (AddMethods srt r ms h)"
  by (simp add: AddMethods_def)

lemma AddMethods_names:
  "Method_name (method_at (AddMethods srt r ms h) x) = Method_name (method_at h x)"
proof (induction ms rule: rev_induct)
  case Nil
  show ?case by (simp add: AddMethods_def)
next
  case (snoc m ms)
  then show ?case by (simp add: AddMethods_snoc AddMethod_names)
qed

lemma AddMethods_Less: "MethodSlice_Less (AddMethods srt r ms h) = MethodSlice_Less h"
  by (simp add: MethodSlice_Less_def [abs_def] AddMethods_names)

lemma AddMethods_mset:
  assumes "sort_contract srt"
  shows "mset (Methods (AddMethods srt r ms h) r) = mset (Methods h r) + mset ms"
proof (induction ms rule: rev_induct)
  case Nil
  show ?case by (simp add: AddMethods_def)
next
  case (snoc m ms)
  then show ?case
    by (simp add: AddMethods_snoc AddMethod_methods
        sort_contractD(1) [OF assms MethodSlice_Less_transitive])
qed

lemma AddMethods_ascending:
  assumes "sort_contract srt" and "ms \<noteq> []"
  shows "ascending (MethodSlice_Less h) (Methods (AddMethods srt r ms h) r)"
proof -
  from \<open>ms \<noteq> []\<close> obtain ms' m where ms: "ms = ms' @ [m]"
    by (cases ms rule: rev_cases) auto
  let ?h = "AddMethods srt r ms' h"
  have "ascending (MethodSlice_Less ?h) (srt (MethodSlice_Less ?h) (Methods ?h r @ [m]))"
    by (rule sort_contractD(2) [OF assms(1) MethodSlice_Less_transitive])
  then show ?thesis
    by (simp add: ms AddMethods_snoc AddMethod_methods AddMethods_Less)
qed

lemma AddLocators_snoc:
  "AddLocators srt r (ls @ [l]) h = AddLocator srt r (Some l) (AddLocators srt r ls h)"
  by (simp add: AddLocators_def)

lemma AddLocators_fields:
  "Locator_name (locator_at (AddLocators srt r ls h) x) = Locator_name (locator_at h x)"
  "Locator_variable (locator_at (AddLocators srt r ls h) x) =
     Locator_variable (locator_at h x)"
proof (induction ls rule: rev_induct)
  case Nil
  {
    case 1 show ?case by (simp add: AddLocators_def)
  next
    case 2 show ?case by (simp add: AddLocators_def)
  }
next
  case (snoc l ls)
  {
    case 1 with snoc show ?case by (simp add: AddLocators_snoc AddLocator_fields)
  next
    case 2 with snoc show ?case by (simp add: AddLocators_snoc AddLocator_fields)
  }
qed

lemma AddLocators_Less: "LocatorSlice_Less (AddLocators srt r ls h) = LocatorSlice_Less h"
  by (simp add: LocatorSlice_Less_def [abs_def] AddLocators_fields)

lemma AddLocators_mset:
  assumes "sort_contract srt"
  shows "mset (Locators (AddLocators srt r ls h) r) = mset (Locators h r) + mset ls"
proof (induction ls rule: rev_induct)
  case Nil
  show ?case by (simp add: AddLocators_def)
next
  case (snoc l ls)
  then show ?case
    by (simp add: AddLocators_snoc AddLocator_locators
        sort_contractD(1) [OF assms LocatorSlice_Less_transitive])
qed

lemma AddLocators_ascending:
  assumes "sort_contract srt" and "ls \<noteq> []"
  shows "ascending (LocatorSlice_Less h) (Locators (AddLocators srt r ls h) r)"
proof -
  from \<open>ls \<noteq> []\<close> obtain ls' l where ls: "ls = ls' @ [l]"
    by (cases ls rule: rev_cases) auto
  let ?h = "AddLocators srt r ls' h"
  have "ascending (LocatorSlice_Less ?h) (srt (LocatorSlice_Less ?h) (Locators ?h r @ [l]))"
    by (rule sort_contractD(2) [OF assms(1) LocatorSlice_Less_transitive])
  then show ?thesis
    by (simp add: ls AddLocators_snoc AddLocator_locators AddLocators_Less)
qed

section \<open>The example resource\<close>

lemma AddMethod_Less: "MethodSlice_Less (AddMethod srt r (Some m) h) = MethodSlice_Less h"
  by (simp add: MethodSlice_Less_def [abs_def] AddMethod_names)

lemma AddLocator_Less: "LocatorSlice_Less (AddLocator srt r (Some l) h) = LocatorSlice_Less h"
  by (simp add: LocatorSlice_Less_def [abs_def] AddLocator_fields)

lemma example_objects:
  "method_at example_graph = example_method"
  "locator_at example_graph = example_locator"
  "Methods example_graph 0 = []"
  "Locators example_graph 0 = []"
  by (simp_all add: example_graph_def Methods_def Locators_def zero_Resource_def)

lemma example_Less:
  "MethodSlice_Less example_graph a b \<longleftrightarrow>
     name_key (Method_name (example_method a)) < name_key (Method_name (example_method b))"
  "LocatorSlice_Less example_graph a b \<longleftrightarrow>
     name_key (Locator_name (example_locator a)) < name_key (Locator_name (example_locator b))"
  by (simp_all add: MethodSlice_Less_def LocatorSlice_Less_def names_Compare_less
      example_objects)

lemma example_methods_added:
  "Methods (AddMethods insertionSort 0 [1, 2, 3] example_graph) 0 = [2, 3, 1]"
  by (simp add: AddMethods_def AddMethod_methods AddMethod_Less example_objects
      insertionSort_def example_Less example_method_def name_key_def word_key_def
      lower_char_def)

lemma example_locators_added:
  "Locators (AddLocators insertionSort 0 [1, 3] example_graph) 0 = [3, 1]"
  "Locators (AddLocators insertionSort 0 [1, 2] example_graph) 0 = [1, 2]"
  by (simp_all add: AddLocators_def AddLocator_locators AddLocator_Less example_objects
      insertionSort_def example_Less example_locator_def name_key_def word_key_def
      lower_char_def)

text \<open>
  C5. Let \<^verbatim>\<open>sort.Sort\<close> meet its contract, and let a sequence of \<^verbatim>\<open>AddMethod\<close> calls with
  non-nil methods be made on a resource that is new, or let the sequence have at least
  one call. Afterwards the collection holds the methods it held and the added ones, it
  is sorted by the order on names, and \<^verbatim>\<open>FindMethod(n)\<close> is the first method of the
  collection whose name equals \<open>n\<close>, or nil when no method has that name; a method it
  returns compares equal to \<open>n\<close> in the order on names.
\<close>

theorem Methods_sorted_and_found:
  assumes "sort_contract srt"
    and "ms \<noteq> [] \<or> Methods h r = []"
    and "h' = AddMethods srt r ms h"
  shows "mset (Methods h' r) = mset (Methods h r) + mset ms \<and>
         sorted_by_name (\<lambda>m. Method_name (method_at h' m)) (Methods h' r) \<and>
         is_first_where (\<lambda>m. Name_Equals (Method_name (method_at h' m)) n)
           (Methods h' r) (FindMethod h' r n) \<and>
         (\<forall>m. FindMethod h' r n = Some m \<longrightarrow>
            names_Compare (Method_name (method_at h' m)) n = 0)"
proof (intro conjI)
  show "mset (Methods h' r) = mset (Methods h r) + mset ms"
    by (simp add: assms(3) AddMethods_mset [OF assms(1)])
  show "sorted_by_name (\<lambda>m. Method_name (method_at h' m)) (Methods h' r)"
  proof (cases "ms = []")
    case True
    with assms(2,3) show ?thesis
      by (simp add: AddMethods_def sorted_by_name_def)
  next
    case False
    from AddMethods_ascending [OF assms(1) False, of h r]
    have "ascending (MethodSlice_Less h') (Methods h' r)"
      by (simp add: assms(3) AddMethods_Less)
    then show ?thesis
      by (rule ascending_methods_sorted)
  qed
  show first: "is_first_where (\<lambda>m. Name_Equals (Method_name (method_at h' m)) n)
      (Methods h' r) (FindMethod h' r n)"
    by (simp add: FindMethod_def FindMethod_loop_find is_first_where_find)
  show "\<forall>m. FindMethod h' r n = Some m \<longrightarrow>
      names_Compare (Method_name (method_at h' m)) n = 0"
    using first by (auto simp: is_first_where_def Name_Equals_Compare)
qed

theorem Methods_sorted_and_found_witness:
  "sort_contract (insertionSort :: (ptr \<Rightarrow> ptr \<Rightarrow> bool) \<Rightarrow> ptr list \<Rightarrow> ptr list) \<and>
   Methods example_graph 0 = [] \<and>
   Methods (AddMethods insertionSort 0 [1, 2, 3] example_graph) 0 = [2, 3, 1] \<and>
   map (\<lambda>m. Method_name (method_at (AddMethods insertionSort 0 [1, 2, 3] example_graph) m))
     [2, 3, 1] = [[''Add''], [''get''], [''list'']] \<and>
   sorted_by_name (\<lambda>m. Method_name (method_at (AddMethods insertionSort 0 [1, 2, 3] example_graph) m))
     [2, 3, 1] \<and>
   FindMethod (AddMethods insertionSort 0 [1, 2, 3] example_graph) 0 [''GET''] = Some 3 \<and>
   is_first_where
     (\<lambda>m. Name_Equals
        (Method_name (method_at (AddMethods insertionSort 0 [1, 2, 3] example_graph) m)) [''GET''])
     [2, 3, 1] (Some 3) \<and>
   FindMethod (AddMethods insertionSort 0 [1, 2, 3] example_graph) 0 [''delete''] = None \<and>
   is_first_where
     (\<lambda>m. Name_Equals
        (Method_name (method_at (AddMethods insertionSort 0 [1, 2, 3] example_graph) m)) [''delete''])
     [2, 3, 1] None"
proof -
  let ?h = "AddMethods insertionSort 0 [1, 2, 3] example_graph"
  have new: "Methods example_graph 0 = []"
    by (rule example_objects)
  have ms: "Methods ?h 0 = [2, 3, 1]"
    by (rule example_methods_added)
  have nm: "map (\<lambda>m. Method_name (method_at ?h m)) [2, 3, 1] = [[''Add''], [''get''], [''list'']]"
    by (simp add: AddMethods_names example_objects example_method_def)
  have f1: "FindMethod ?h 0 [''GET''] = Some 3"
    by (simp only: FindMethod_def ms)
      (simp add: AddMethods_names Name_Equals_key example_objects example_method_def
        name_key_def word_key_def lower_char_def)
  have f2: "FindMethod ?h 0 [''delete''] = None"
    by (simp only: FindMethod_def ms)
      (simp add: AddMethods_names Name_Equals_key example_objects example_method_def
        name_key_def word_key_def lower_char_def)
  have pre: "[1, 2, 3] \<noteq> [] \<or> Methods example_graph 0 = []"
    by simp
  note get = Methods_sorted_and_found [OF insertionSort_contract pre refl, where n = "[''GET'']"]
  note del = Methods_sorted_and_found [OF insertionSort_contract pre refl,
      where n = "[''delete'']"]
  from get have "sorted_by_name (\<lambda>m. Method_name (method_at ?h m)) (Methods ?h 0)"
    by blast
  then have s: "sorted_by_name (\<lambda>m. Method_name (method_at ?h m)) [2, 3, 1]"
    by (simp only: ms)
  from get have "is_first_where (\<lambda>m. Name_Equals (Method_name (method_at ?h m)) [''GET''])
      (Methods ?h 0) (FindMethod ?h 0 [''GET''])"
    by blast
  then have i1: "is_first_where (\<lambda>m. Name_Equals (Method_name (method_at ?h m)) [''GET''])
      [2, 3, 1] (Some 3)"
    by (simp only: ms f1)
  from del have "is_first_where (\<lambda>m. Name_Equals (Method_name (method_at ?h m)) [''delete''])
      (Methods ?h 0) (FindMethod ?h 0 [''delete''])"
    by blast
  then have i2: "is_first_where (\<lambda>m. Name_Equals (Method_name (method_at ?h m)) [''delete''])
      [2, 3, 1] None"
    by (simp only: ms f2)
  from insertionSort_contract new ms nm s f1 i1 f2 i2 show ?thesis
    by (intro conjI)
qed

text \<open>
  C6, as the code has it. Let \<^verbatim>\<open>sort.Sort\<close> meet its contract, and let a sequence of
  \<^verbatim>\<open>AddLocator\<close> calls with non-nil locators be made on a resource that is new, or let the
  sequence have at least one call; any number of the locators may be flagged variable.
  Afterwards the collection is sorted by the order on names; \<^verbatim>\<open>VariableLocator()\<close> is
  the first locator of the collection that is flagged variable, or nil when none is;
  \<^verbatim>\<open>ConstantLocators()\<close> is exactly the locators that are not flagged, in the order of the
  collection, hence sorted. The two results have no locator in common, and together
  they are the whole collection exactly when no locator other than the one
  \<^verbatim>\<open>VariableLocator()\<close> returns is flagged variable.
\<close>

theorem Locators_sorted_and_split:
  assumes "sort_contract srt"
    and "ls \<noteq> [] \<or> Locators h r = []"
    and "h' = AddLocators srt r ls h"
  shows "mset (Locators h' r) = mset (Locators h r) + mset ls \<and>
         sorted_by_name (\<lambda>l. Locator_name (locator_at h' l)) (Locators h' r) \<and>
         is_first_where (\<lambda>l. Locator_variable (locator_at h' l))
           (Locators h' r) (VariableLocator h' r) \<and>
         ConstantLocators h' r =
           filter (\<lambda>l. \<not> Locator_variable (locator_at h' l)) (Locators h' r) \<and>
         sorted_by_name (\<lambda>l. Locator_name (locator_at h' l)) (ConstantLocators h' r) \<and>
         set_option (VariableLocator h' r) \<inter> set (ConstantLocators h' r) = {} \<and>
         (set_option (VariableLocator h' r) \<union> set (ConstantLocators h' r) =
            set (Locators h' r) \<longleftrightarrow>
          (\<forall>l \<in> set (Locators h' r).
             Locator_variable (locator_at h' l) \<longrightarrow> VariableLocator h' r = Some l))"
proof -
  let ?var = "\<lambda>l. Locator_variable (locator_at h' l)"
  let ?xs = "Locators h' r"
  have bag: "mset ?xs = mset (Locators h r) + mset ls"
    by (simp add: assms(3) AddLocators_mset [OF assms(1)])
  have sorted: "sorted_by_name (\<lambda>l. Locator_name (locator_at h' l)) ?xs"
  proof (cases "ls = []")
    case True
    with assms(2,3) show ?thesis
      by (simp add: AddLocators_def sorted_by_name_def)
  next
    case False
    from AddLocators_ascending [OF assms(1) False, of h r]
    have "ascending (LocatorSlice_Less h') ?xs"
      by (simp add: assms(3) AddLocators_Less)
    then show ?thesis
      by (rule ascending_locators_sorted)
  qed
  have var: "VariableLocator h' r = find ?var ?xs"
    by (simp add: VariableLocator_def VariableLocator_loop_find)
  have const: "ConstantLocators h' r = filter (\<lambda>l. \<not> ?var l) ?xs"
    by (simp add: ConstantLocators_def ConstantLocators_loop_filter)
  have first: "is_first_where ?var ?xs (VariableLocator h' r)"
    by (simp add: var is_first_where_find)
  have found: "\<And>l. find ?var ?xs = Some l \<Longrightarrow> ?var l \<and> l \<in> set ?xs"
    by (auto simp: find_Some_iff)
  have none: "find ?var ?xs = None \<Longrightarrow> \<forall>l \<in> set ?xs. \<not> ?var l"
    by (simp add: find_None_iff)
  have disjoint: "set_option (VariableLocator h' r) \<inter> set (ConstantLocators h' r) = {}"
    using found by (cases "find ?var ?xs") (auto simp: var const)
  have cover: "set_option (VariableLocator h' r) \<union> set (ConstantLocators h' r) = set ?xs
      \<longleftrightarrow> (\<forall>l \<in> set ?xs. ?var l \<longrightarrow> VariableLocator h' r = Some l)"
  proof (cases "find ?var ?xs")
    case None
    with none show ?thesis
      by (auto simp: var const)
  next
    case (Some v)
    with found [OF Some] show ?thesis
      by (auto simp: var const)
  qed
  from bag sorted first const disjoint cover sorted_by_name_filter [OF sorted]
  show ?thesis
    by (simp only: simp_thms)
qed

theorem Locators_sorted_and_split_witness:
  "sort_contract (insertionSort :: (ptr \<Rightarrow> ptr \<Rightarrow> bool) \<Rightarrow> ptr list \<Rightarrow> ptr list) \<and>
   Locators example_graph 0 = [] \<and>
   Locators (AddLocators insertionSort 0 [1, 3] example_graph) 0 = [3, 1] \<and>
   sorted_by_name
     (\<lambda>l. Locator_name (locator_at (AddLocators insertionSort 0 [1, 3] example_graph) l)) [3, 1] \<and>
   VariableLocator (AddLocators insertionSort 0 [1, 3] example_graph) 0 = Some 1 \<and>
   ConstantLocators (AddLocators insertionSort 0 [1, 3] example_graph) 0 = [3] \<and>
   set_option (VariableLocator (AddLocators insertionSort 0 [1, 3] example_graph) 0) \<union>
     set (ConstantLocators (AddLocators insertionSort 0 [1, 3] example_graph) 0) =
     set (Locators (AddLocators insertionSort 0 [1, 3] example_graph) 0)"
proof -
  let ?h = "AddLocators insertionSort 0 [1, 3] example_graph"
  have new: "Locators example_graph 0 = []"
    by (rule example_objects)
  have ls: "Locators ?h 0 = [3, 1]"
    by (rule example_locators_added)
  have v: "VariableLocator ?h 0 = Some 1"
    by (simp only: VariableLocator_def ls)
      (simp add: AddLocators_fields example_objects example_locator_def)
  have c: "ConstantLocators ?h 0 = [3]"
    by (simp only: ConstantLocators_def ls)
      (simp add: AddLocators_fields example_objects example_locator_def)
  have pre: "[1, 3] \<noteq> [] \<or> Locators example_graph 0 = []"
    by simp
  note split = Locators_sorted_and_split [OF insertionSort_contract pre refl]
  from split have "sorted_by_name (\<lambda>l. Locator_name (locator_at ?h l)) (Locators ?h 0)"
    by blast
  then have s: "sorted_by_name (\<lambda>l. Locator_name (locator_at ?h l)) [3, 1]"
    by (simp only: ls)
  have u: "set_option (VariableLocator ?h 0) \<union> set (ConstantLocators ?h 0) =
      set (Locators ?h 0)"
    by (simp only: ls v c) auto
  from insertionSort_contract new ls s v c u show ?thesis
    by (intro conjI)
qed

text \<open>
  C6, as the claim has it, fails when two locators are flagged variable: after adding
  the variable locators 1 and 2 to a new resource, \<^verbatim>\<open>VariableLocator()\<close> is the locator
  1, \<^verbatim>\<open>ConstantLocators()\<close> is empty, and the locator 2 is in neither result.
\<close>

theorem Locators_partition_counterexample:
  "Locators (AddLocators insertionSort 0 [1, 2] example_graph) 0 = [1, 2] \<and>
   Locator_variable (locator_at (AddLocators insertionSort 0 [1, 2] example_graph) 1) \<and>
   Locator_variable (locator_at (AddLocators insertionSort 0 [1, 2] example_graph) 2) \<and>
   VariableLocator (AddLocators insertionSort 0 [1, 2] example_graph) 0 = Some 1 \<and>
   ConstantLocators (AddLocators insertionSort 0 [1, 2] example_graph) 0 = [] \<and>
   set_option (VariableLocator (AddLocators insertionSort 0 [1, 2] example_graph) 0) \<union>
     set (ConstantLocators (AddLocators insertionSort 0 [1, 2] example_graph) 0) \<noteq>
     set (Locators (AddLocators insertionSort 0 [1, 2] example_graph) 0)"
proof -
  let ?h = "AddLocators insertionSort 0 [1, 2] example_graph"
  have ls: "Locators ?h 0 = [1, 2]"
    by (rule example_locators_added)
  have v1: "Locator_variable (locator_at ?h 1)"
    by (simp add: AddLocators_fields example_objects example_locator_def)
  have v2: "Locator_variable (locator_at ?h 2)"
    by (simp add: AddLocators_fields example_objects example_locator_def)
  have v: "VariableLocator ?h 0 = Some 1"
    by (simp only: VariableLocator_def ls)
      (simp add: AddLocators_fields example_objects example_locator_def)
  have c: "ConstantLocators ?h 0 = []"
    by (simp only: ConstantLocators_def ls)
      (simp add: AddLocators_fields example_objects example_locator_def)
  have u: "set_option (VariableLocator ?h 0) \<union> set (ConstantLocators ?h 0) \<noteq>
      set (Locators ?h 0)"
    by (simp only: ls v c) auto
  from ls v1 v2 v c u show ?thesis
    by (intro conjI)
qed

section \<open>The run\<close>

subsection \<open>What one step keeps and adds\<close>

lemma world_kept_refl: "world_kept w w"
  by (simp add: world_kept_def)

lemma tools_kept_refl: "tools_kept g g"
  by (simp add: tools_kept_def)

lemma tools_kept_trans: "tools_kept g g1 \<Longrightarrow> tools_kept g1 g2 \<Longrightarrow> tools_kept g g2"
  by (simp add: tools_kept_def)

lemma effect_refl: "effect rep w w [] []"
  by (simp add: effect_def world_kept_def)

lemma effect_trans:
  assumes "effect rep w w1 us rs" and "effect rep w1 w2 us' rs'"
  shows "effect rep w w2 (us @ us') (rs @ rs')"
proof -
  from assms obtain fs fs' where
    "disk w1 = disk w @ fs" "map unit_of fs = us"
    "disk w2 = disk w1 @ fs'" "map unit_of fs' = us'"
    by (auto simp: effect_def)
  then have "disk w2 = disk w @ (fs @ fs') \<and> map unit_of (fs @ fs') = us @ us'"
    by simp
  then have "\<exists>files. disk w2 = disk w @ files \<and> map unit_of files = us @ us'"
    by blast
  with assms show ?thesis
    by (simp add: effect_def world_kept_def)
qed

lemma effect_world_kept: "effect rep w w1 us rs \<Longrightarrow> world_kept w w1"
  by (simp add: effect_def)

lemma never_refuses_kept: "world_kept w w1 \<Longrightarrow> never_refuses w \<Longrightarrow> never_refuses w1"
  by (simp add: world_kept_def never_refuses_def)

lemma getterType_ref_kept:
  "world_kept w w1 \<Longrightarrow> tools_kept g g1 \<Longrightarrow> getterType_ref g1 a w1 = getterType_ref g a w"
  by (simp add: getterType_ref_def world_kept_def tools_kept_def Let_def)

lemma unresolved_attributes_kept:
  "world_kept w w1 \<Longrightarrow> tools_kept g g1 \<Longrightarrow>
     unresolved_attributes g1 w1 typ = unresolved_attributes g w typ"
  by (simp add: unresolved_attributes_def getterType_ref_kept) (simp add: world_kept_def)

lemma type_reports_kept:
  "world_kept w w1 \<Longrightarrow> tools_kept g g1 \<Longrightarrow> type_reports g1 w1 typ = type_reports g w typ"
  by (simp add: type_reports_def unresolved_attributes_kept)

lemma type_unit_kept: "tools_kept g g1 \<Longrightarrow> type_unit g1 = type_unit g"
  by (simp add: type_unit_def tools_kept_def fun_eq_iff)

lemma version_units_kept: "tools_kept g g1 \<Longrightarrow> version_units g1 = version_units g"
  by (simp add: version_units_def metadata_unit_def type_unit_kept fun_eq_iff)
    (simp add: tools_kept_def)

lemma version_reports_kept:
  "world_kept w w1 \<Longrightarrow> tools_kept g g1 \<Longrightarrow> version_reports g1 w1 = version_reports g w"
  by (simp add: version_reports_def type_reports_kept fun_eq_iff cong: map_cong)
    (simp add: world_kept_def)

lemma getterType_effect:
  assumes "getterType g a w = (ref, w1)"
  shows "effect (reporter g) w w1 []
           (if getterType_ref g a w = None then [AttributeReport getterType_format a] else [])"
  using assms
  by (auto simp: getterType_def effect_def world_kept_def Reporter_Errorf_def
      split: option.splits)

lemma getterTypes_effect:
  "getterTypes g as w = (refs, w1) \<Longrightarrow>
     effect (reporter g) w w1 []
       (map (AttributeReport getterType_format)
          (filter (\<lambda>a. getterType_ref g a w = None) as))"
proof (induction as arbitrary: w refs w1)
  case Nil
  then show ?case by (simp add: effect_refl)
next
  case (Cons a as)
  obtain ref w' where first: "getterType g a w = (ref, w')"
    by (cases "getterType g a w")
  obtain refs' w'' where rest: "getterTypes g as w' = (refs', w'')"
    by (cases "getterTypes g as w'")
  from Cons.prems first rest have w1: "w1 = w''"
    by simp
  have e1: "effect (reporter g) w w' []
      (if getterType_ref g a w = None then [AttributeReport getterType_format a] else [])"
    by (rule getterType_effect [OF first])
  have kept: "world_kept w w'"
    by (rule effect_world_kept [OF e1])
  have same: "\<And>b. getterType_ref g b w' = getterType_ref g b w"
    by (rule getterType_ref_kept [OF kept tools_kept_refl])
  have e2: "effect (reporter g) w' w'' []
      (map (AttributeReport getterType_format) (filter (\<lambda>b. getterType_ref g b w = None) as))"
    using Cons.IH [OF rest] by (simp add: same)
  from effect_trans [OF e1 e2] show ?case
    by (cases "getterType_ref g a w") (simp_all add: w1)
qed

lemma emit_kept: "tools_kept g (emit fragment g)"
  by (simp add: emit_def tools_kept_def)

lemma emit_buffer:
  "buffer g = Some b \<Longrightarrow>
     \<exists>b1. buffer (emit fragment g) = Some b1 \<and> Buffer_package b1 = Buffer_package b \<and>
          Buffer_file b1 = Buffer_file b \<and> Buffer_reporter b1 = Buffer_reporter b \<and>
          Buffer_output b1 = Buffer_output b"
  by (simp add: emit_def Buffer_Emit_def)

lemma enum_is_no_struct: "IsEnum t \<Longrightarrow> \<not> IsStruct t"
  by (simp add: IsEnum_def IsStruct_def)

lemma generateTypeSource_effect:
  assumes run: "generateTypeSource g typ w = (g1, w1)" and buf: "buffer g = Some b"
  shows "tools_kept g g1 \<and>
         (\<exists>b1. buffer g1 = Some b1 \<and> Buffer_package b1 = Buffer_package b \<and>
            Buffer_file b1 = Buffer_file b \<and> Buffer_reporter b1 = Buffer_reporter b \<and>
            Buffer_output b1 = Buffer_output b) \<and>
         effect (reporter g) w w1 []
           (type_reports g w typ)"
proof (cases "IsEnum (type_at (graph w) typ)")
  case True
  with run have "g1 = emit (EnumTypeSource typ) g" and "w1 = w"
    by (simp_all add: generateTypeSource_def generateEnumTypeSource_def)
  with True buf show ?thesis
    by (simp add: emit_kept emit_buffer effect_refl unresolved_attributes_def
        type_reports_def enum_is_no_struct)
next
  case False
  show ?thesis
  proof (cases "IsStruct (type_at (graph w) typ)")
    case True
    obtain refs w' where gt:
      "getterTypes g (Type_attributes (type_at (graph w) typ)) w = (refs, w')"
      by (cases "getterTypes g (Type_attributes (type_at (graph w) typ)) w")
    with run True \<open>\<not> IsEnum (type_at (graph w) typ)\<close>
    have "g1 = emit (StructTypeSource typ refs) g" and "w1 = w'"
      by (simp_all add: generateTypeSource_def generateStructTypeSource_def)
    with getterTypes_effect [OF gt] True buf show ?thesis
      by (simp add: emit_kept emit_buffer unresolved_attributes_def type_reports_def)
  next
    case False
    with run \<open>\<not> IsEnum (type_at (graph w) typ)\<close> have "g1 = g" and "w1 = w"
      by (simp_all add: generateTypeSource_def)
    with False buf show ?thesis
      by (simp add: tools_kept_refl effect_refl unresolved_attributes_def type_reports_def)
  qed
qed

lemma Buffer_Write_effect:
  assumes "write_error w (Buffer_package b) (Buffer_file b) = None"
  shows "\<exists>w1. Buffer_Write b w = (None, w1) \<and>
           effect rep w w1 [(Buffer_package b, Buffer_file b)] []"
  using assms by (simp add: Buffer_Write_def effect_def world_kept_def unit_of_def)

lemma generateTypeFile_effect:
  assumes ok: "never_refuses w"
  shows "\<exists>g1 w1. generateTypeFile g typ w = (None, g1, w1) \<and> tools_kept g g1 \<and>
           effect (reporter g) w w1 [type_unit g (graph w) typ]
             (type_reports g w typ)"
proof -
  let ?pkg = "VersionPackage (packages g) (Type_owner (type_at (graph w) typ))"
  let ?file = "typeFile g typ w"
  let ?b = "\<lparr>Buffer_reporter = reporter g, Buffer_output = g_output g,
      Buffer_packages = packages g, Buffer_package = ?pkg, Buffer_file = ?file, Buffer_functions = type_functions, Buffer_body = []\<rparr>"
  let ?g = "g\<lparr>buffer := Some ?b\<rparr>"
  from ok have build:
    "Buffer_Build (reporter g) (g_output g) (packages g) ?pkg ?file type_functions w = Inr ?b"
    by (simp add: Buffer_Build_def never_refuses_def)
  obtain g1 w1 where src: "generateTypeSource ?g typ w = (g1, w1)"
    by (cases "generateTypeSource ?g typ w")
  have buf: "buffer ?g = Some ?b"
    by simp
  from generateTypeSource_effect [OF src buf] obtain b1 where
    kept: "tools_kept ?g g1" and b1: "buffer g1 = Some b1" "Buffer_package b1 = ?pkg"
      "Buffer_file b1 = ?file" and
    e1: "effect (reporter ?g) w w1 []
      (type_reports ?g w typ)"
    by auto
  have kept': "tools_kept g g1"
    using kept by (simp add: tools_kept_def)
  have same: "type_reports ?g w typ = type_reports g w typ"
    by (rule type_reports_kept [OF world_kept_refl]) (simp add: tools_kept_def)
  from e1 have e1': "effect (reporter g) w w1 []
      (type_reports g w typ)"
    by (simp add: same)
  have "never_refuses w1"
    by (rule never_refuses_kept [OF effect_world_kept [OF e1'] ok])
  then have "write_error w1 (Buffer_package b1) (Buffer_file b1) = None"
    by (simp add: never_refuses_def)
  from Buffer_Write_effect [OF this, of "reporter g"] obtain w2 where
    wr: "Buffer_Write b1 w1 = (None, w2)" and
    e2: "effect (reporter g) w1 w2 [(Buffer_package b1, Buffer_file b1)] []"
    by auto
  have result: "generateTypeFile g typ w = (None, g1, w2)"
    by (simp add: generateTypeFile_def Let_def build src b1 wr)
  have unit: "(Buffer_package b1, Buffer_file b1) = type_unit g (graph w) typ"
    by (simp add: b1 type_unit_def typeFile_def)
  from effect_trans [OF e1' e2] have "effect (reporter g) w w2 [type_unit g (graph w) typ]
      (type_reports g w typ)"
    by (simp add: unit)
  with result kept' show ?thesis
    by blast
qed

lemma generateVersionMetadataTypeFile_effect:
  assumes ok: "never_refuses w"
  shows "\<exists>g1 w1. generateVersionMetadataTypeFile g version w = (None, g1, w1) \<and>
           tools_kept g g1 \<and> effect (reporter g) w w1 [metadata_unit g version] []"
proof -
  let ?pkg = "VersionPackage (packages g) version"
  let ?file = "metadataFile g"
  let ?b = "\<lparr>Buffer_reporter = reporter g, Buffer_output = g_output g,
      Buffer_packages = packages g, Buffer_package = ?pkg, Buffer_file = ?file, Buffer_functions = [], Buffer_body = []\<rparr>"
  let ?g1 = "emit VersionMetadataTypeSource (g\<lparr>buffer := Some ?b\<rparr>)"
  from ok have build:
    "Buffer_Build (reporter g) (g_output g) (packages g) ?pkg ?file [] w = Inr ?b"
    by (simp add: Buffer_Build_def never_refuses_def)
  have "buffer (g\<lparr>buffer := Some ?b\<rparr>) = Some ?b"
    by simp
  from emit_buffer [OF this, of VersionMetadataTypeSource] obtain b1 where
    b1: "buffer ?g1 = Some b1" "Buffer_package b1 = ?pkg" "Buffer_file b1 = ?file"
    by auto
  from ok have "write_error w (Buffer_package b1) (Buffer_file b1) = None"
    by (simp add: never_refuses_def)
  from Buffer_Write_effect [OF this, of "reporter g"] obtain w1 where
    wr: "Buffer_Write b1 w = (None, w1)" and
    e: "effect (reporter g) w w1 [(Buffer_package b1, Buffer_file b1)] []"
    by auto
  have result: "generateVersionMetadataTypeFile g version w = (None, ?g1, w1)"
    by (simp add: generateVersionMetadataTypeFile_def Let_def build
        generateVersionMetadataTypeSource_def b1 wr)
  have kept: "tools_kept g ?g1"
    by (simp add: emit_def tools_kept_def)
  have "(Buffer_package b1, Buffer_file b1) = metadata_unit g version"
    by (simp add: b1 metadata_unit_def metadataFile_def)
  with e result kept show ?thesis
    by auto
qed

subsection \<open>The three loops when nothing is refused\<close>

lemma Run_types_effect:
  "never_refuses w \<Longrightarrow>
     \<exists>g1 w1. Run_types g ts w = (None, g1, w1) \<and> tools_kept g g1 \<and>
       effect (reporter g) w w1
         (map (type_unit g (graph w)) (filter (generated_type (graph w)) ts))
         (concat (map (type_reports g w) (filter (generated_type (graph w)) ts)))"
proof (induction ts arbitrary: g w)
  case Nil
  then show ?case
    by (simp add: tools_kept_refl effect_refl)
next
  case (Cons ty ts)
  show ?case
  proof (cases "generated_type (graph w) ty")
    case False
    with Cons.IH [OF Cons.prems, of g] show ?thesis
      by (simp add: generated_type_def)
  next
    case True
    from generateTypeFile_effect [OF Cons.prems, of g ty] obtain g1 w1 where
      tf: "generateTypeFile g ty w = (None, g1, w1)" and k1: "tools_kept g g1" and
      e1: "effect (reporter g) w w1 [type_unit g (graph w) ty] (type_reports g w ty)"
      by blast
    have wk: "world_kept w w1"
      by (rule effect_world_kept [OF e1])
    have ok1: "never_refuses w1"
      by (rule never_refuses_kept [OF wk Cons.prems])
    from Cons.IH [OF ok1, of g1] obtain g2 w2 where
      rest: "Run_types g1 ts w1 = (None, g2, w2)" and k2: "tools_kept g1 g2" and
      e2: "effect (reporter g1) w1 w2
        (map (type_unit g1 (graph w1)) (filter (generated_type (graph w1)) ts))
        (concat (map (type_reports g1 w1) (filter (generated_type (graph w1)) ts)))"
      by blast
    have same: "reporter g1 = reporter g" "graph w1 = graph w"
      "type_unit g1 = type_unit g"
      "type_reports g1 w1 = type_reports g w"
      using k1 wk type_unit_kept [OF k1] type_reports_kept [OF wk k1]
      by (auto simp: tools_kept_def world_kept_def)
    from e2 have e2': "effect (reporter g) w1 w2
        (map (type_unit g (graph w)) (filter (generated_type (graph w)) ts))
        (concat (map (type_reports g w) (filter (generated_type (graph w)) ts)))"
      by (simp add: same)
    from True tf rest have "Run_types g (ty # ts) w = (None, g2, w2)"
      by (simp add: generated_type_def)
    with tools_kept_trans [OF k1 k2] effect_trans [OF e1 e2'] True show ?thesis
      by simp
  qed
qed

lemma Run_versions_effect:
  "never_refuses w \<Longrightarrow>
     \<exists>g1 w1. Run_versions g vs w = (None, g1, w1) \<and> tools_kept g g1 \<and>
       effect (reporter g) w w1
         (concat (map (version_units g (graph w)) vs))
         (concat (map (version_reports g w) vs))"
proof (induction vs arbitrary: g w)
  case Nil
  then show ?case
    by (simp add: tools_kept_refl effect_refl)
next
  case (Cons version vs)
  from generateVersionMetadataTypeFile_effect [OF Cons.prems, of g version] obtain g1 w1 where
    meta: "generateVersionMetadataTypeFile g version w = (None, g1, w1)" and
    k1: "tools_kept g g1" and
    e1: "effect (reporter g) w w1 [metadata_unit g version] []"
    by blast
  have wk1: "world_kept w w1"
    by (rule effect_world_kept [OF e1])
  have ok1: "never_refuses w1"
    by (rule never_refuses_kept [OF wk1 Cons.prems])
  let ?ts = "Version_types (version_at (graph w) version)"
  from Run_types_effect [OF ok1, of g1 ?ts] obtain g2 w2 where
    tys: "Run_types g1 ?ts w1 = (None, g2, w2)" and k2: "tools_kept g1 g2" and
    e2: "effect (reporter g1) w1 w2
      (map (type_unit g1 (graph w1)) (filter (generated_type (graph w1)) ?ts))
      (concat (map (type_reports g1 w1) (filter (generated_type (graph w1)) ?ts)))"
    by blast
  have same1: "reporter g1 = reporter g" "graph w1 = graph w"
    "type_unit g1 = type_unit g" "type_reports g1 w1 = type_reports g w"
    using k1 wk1 type_unit_kept [OF k1] type_reports_kept [OF wk1 k1]
    by (auto simp: tools_kept_def world_kept_def)
  from e2 have e2': "effect (reporter g) w1 w2
      (map (type_unit g (graph w)) (filter (generated_type (graph w)) ?ts))
      (version_reports g w version)"
    by (simp add: same1 version_reports_def)
  have e12: "effect (reporter g) w w2 (version_units g (graph w) version)
      (version_reports g w version)"
    using effect_trans [OF e1 e2'] by (simp add: version_units_def)
  have k12: "tools_kept g g2"
    by (rule tools_kept_trans [OF k1 k2])
  have wk2: "world_kept w w2"
    by (rule effect_world_kept [OF e12])
  have ok2: "never_refuses w2"
    by (rule never_refuses_kept [OF wk2 Cons.prems])
  from Cons.IH [OF ok2, of g2] obtain g3 w3 where
    rest: "Run_versions g2 vs w2 = (None, g3, w3)" and k3: "tools_kept g2 g3" and
    e3: "effect (reporter g2) w2 w3
      (concat (map (version_units g2 (graph w2)) vs))
      (concat (map (version_reports g2 w2) vs))"
    by blast
  have same2: "reporter g2 = reporter g" "graph w2 = graph w"
    "version_units g2 = version_units g" "version_reports g2 w2 = version_reports g w"
    using k12 wk2 version_units_kept [OF k12] version_reports_kept [OF wk2 k12]
    by (auto simp: tools_kept_def world_kept_def)
  from e3 have e3': "effect (reporter g) w2 w3
      (concat (map (version_units g (graph w)) vs))
      (concat (map (version_reports g w) vs))"
    by (simp add: same2)
  from meta tys rest same1 have "Run_versions g (version # vs) w = (None, g3, w3)"
    by simp
  with tools_kept_trans [OF k12 k3] effect_trans [OF e12 e3'] show ?case
    by simp
qed

lemma Run_services_effect:
  "never_refuses w \<Longrightarrow>
     \<exists>g1 w1. Run_services g ss w = (None, g1, w1) \<and> tools_kept g g1 \<and>
       effect (reporter g) w w1
         (concat (map (version_units g (graph w))
            (concat (map (\<lambda>service. Service_versions (service_at (graph w) service)) ss))))
         (concat (map (version_reports g w)
            (concat (map (\<lambda>service. Service_versions (service_at (graph w) service)) ss))))"
proof (induction ss arbitrary: g w)
  case Nil
  then show ?case
    by (simp add: tools_kept_refl effect_refl)
next
  case (Cons service ss)
  let ?vs = "Service_versions (service_at (graph w) service)"
  from Run_versions_effect [OF Cons.prems, of g ?vs] obtain g1 w1 where
    vers: "Run_versions g ?vs w = (None, g1, w1)" and k1: "tools_kept g g1" and
    e1: "effect (reporter g) w w1 (concat (map (version_units g (graph w)) ?vs))
      (concat (map (version_reports g w) ?vs))"
    by blast
  have wk1: "world_kept w w1"
    by (rule effect_world_kept [OF e1])
  have ok1: "never_refuses w1"
    by (rule never_refuses_kept [OF wk1 Cons.prems])
  from Cons.IH [OF ok1, of g1] obtain g2 w2 where
    rest: "Run_services g1 ss w1 = (None, g2, w2)" and k2: "tools_kept g1 g2" and
    e2: "effect (reporter g1) w1 w2
      (concat (map (version_units g1 (graph w1))
         (concat (map (\<lambda>service. Service_versions (service_at (graph w1) service)) ss))))
      (concat (map (version_reports g1 w1)
         (concat (map (\<lambda>service. Service_versions (service_at (graph w1) service)) ss))))"
    by blast
  have same: "reporter g1 = reporter g" "graph w1 = graph w"
    "version_units g1 = version_units g" "version_reports g1 w1 = version_reports g w"
    using k1 wk1 version_units_kept [OF k1] version_reports_kept [OF wk1 k1]
    by (auto simp: tools_kept_def world_kept_def)
  from e2 have e2': "effect (reporter g) w1 w2
      (concat (map (version_units g (graph w))
         (concat (map (\<lambda>service. Service_versions (service_at (graph w) service)) ss))))
      (concat (map (version_reports g w)
         (concat (map (\<lambda>service. Service_versions (service_at (graph w) service)) ss))))"
    by (simp add: same)
  from vers rest have "Run_services g (service # ss) w = (None, g2, w2)"
    by simp
  with tools_kept_trans [OF k1 k2] effect_trans [OF e1 e2'] show ?case
    by simp
qed

lemma effect_disk:
  "effect rep w w1 us rs \<Longrightarrow> map unit_of (disk w1) = map unit_of (disk w) @ us"
  by (auto simp: effect_def)

subsection \<open>One file, whatever the environment does\<close>

lemma Buffer_Write_result:
  assumes "Buffer_Write b w = (res, w1)"
  shows "world_kept w w1 \<and>
         (res = None \<longrightarrow> effect rep w w1 [(Buffer_package b, Buffer_file b)] []) \<and>
         (res \<noteq> None \<longrightarrow> disk w1 = disk w)"
  using assms
  by (auto simp: Buffer_Write_def effect_def world_kept_def unit_of_def Reporter_Errorf_def
      split: option.splits)

lemma generateTypeFile_result:
  assumes run: "generateTypeFile g ty w = (res, g1, w1)"
  shows "tools_kept g g1 \<and> world_kept w w1 \<and>
         (res = None \<longrightarrow>
            effect (reporter g) w w1 [type_unit g (graph w) ty] (type_reports g w ty)) \<and>
         (res \<noteq> None \<longrightarrow> disk w1 = disk w)"
proof -
  let ?pkg = "VersionPackage (packages g) (Type_owner (type_at (graph w) ty))"
  let ?file = "typeFile g ty w"
  show ?thesis
  proof (cases "build_error w ?pkg ?file")
    case (Some e)
    with run show ?thesis
      by (auto simp: generateTypeFile_def Let_def Buffer_Build_def tools_kept_def
          world_kept_def)
  next
    case None
    let ?b = "\<lparr>Buffer_reporter = reporter g, Buffer_output = g_output g,
      Buffer_packages = packages g, Buffer_package = ?pkg, Buffer_file = ?file,
      Buffer_functions = type_functions, Buffer_body = []\<rparr>"
    let ?g = "g\<lparr>buffer := Some ?b\<rparr>"
    from None have build:
      "Buffer_Build (reporter g) (g_output g) (packages g) ?pkg ?file type_functions w = Inr ?b"
      by (simp add: Buffer_Build_def)
    obtain g' w' where src: "generateTypeSource ?g ty w = (g', w')"
      by (cases "generateTypeSource ?g ty w")
    have buf: "buffer ?g = Some ?b"
      by simp
    from generateTypeSource_effect [OF src buf] obtain b1 where
      kept: "tools_kept ?g g'" and b1: "buffer g' = Some b1" "Buffer_package b1 = ?pkg"
        "Buffer_file b1 = ?file" and
      e1: "effect (reporter ?g) w w' [] (type_reports ?g w ty)"
      by auto
    have kept': "tools_kept g g'"
      using kept by (simp add: tools_kept_def)
    have same: "type_reports ?g w ty = type_reports g w ty"
      by (rule type_reports_kept [OF world_kept_refl]) (simp add: tools_kept_def)
    from e1 have e1': "effect (reporter g) w w' [] (type_reports g w ty)"
      by (simp add: same)
    obtain res' w'' where wr: "Buffer_Write b1 w' = (res', w'')"
      by (cases "Buffer_Write b1 w'")
    from run have result: "res = res'" "g1 = g'" "w1 = w''"
      by (simp_all add: generateTypeFile_def Let_def build src b1 wr)
    note w2 = Buffer_Write_result [OF wr, of "reporter g"]
    have unit: "(Buffer_package b1, Buffer_file b1) = type_unit g (graph w) ty"
      by (simp add: b1 type_unit_def typeFile_def)
    have wk: "world_kept w w''"
      using effect_world_kept [OF e1'] w2 by (simp add: world_kept_def)
    have ok: "res' = None \<longrightarrow>
        effect (reporter g) w w'' [type_unit g (graph w) ty] (type_reports g w ty)"
    proof
      assume "res' = None"
      with w2 have "effect (reporter g) w' w'' [type_unit g (graph w) ty] []"
        by (simp add: unit)
      from effect_trans [OF e1' this] show
        "effect (reporter g) w w'' [type_unit g (graph w) ty] (type_reports g w ty)"
        by simp
    qed
    have bad: "res' \<noteq> None \<longrightarrow> disk w'' = disk w"
      using w2 e1' by (auto simp: effect_def)
    from kept' wk ok bad show ?thesis
      by (simp add: result)
  qed
qed

lemma generateVersionMetadataTypeFile_result:
  assumes run: "generateVersionMetadataTypeFile g version w = (res, g1, w1)"
  shows "tools_kept g g1 \<and> world_kept w w1 \<and>
         (res = None \<longrightarrow> effect (reporter g) w w1 [metadata_unit g version] []) \<and>
         (res \<noteq> None \<longrightarrow> disk w1 = disk w)"
proof -
  let ?pkg = "VersionPackage (packages g) version"
  let ?file = "metadataFile g"
  show ?thesis
  proof (cases "build_error w ?pkg ?file")
    case (Some e)
    with run show ?thesis
      by (auto simp: generateVersionMetadataTypeFile_def Let_def Buffer_Build_def
          tools_kept_def world_kept_def)
  next
    case None
    let ?b = "\<lparr>Buffer_reporter = reporter g, Buffer_output = g_output g,
      Buffer_packages = packages g, Buffer_package = ?pkg, Buffer_file = ?file,
      Buffer_functions = [], Buffer_body = []\<rparr>"
    let ?g1 = "emit VersionMetadataTypeSource (g\<lparr>buffer := Some ?b\<rparr>)"
    from None have build:
      "Buffer_Build (reporter g) (g_output g) (packages g) ?pkg ?file [] w = Inr ?b"
      by (simp add: Buffer_Build_def)
    have "buffer (g\<lparr>buffer := Some ?b\<rparr>) = Some ?b"
      by simp
    from emit_buffer [OF this, of VersionMetadataTypeSource] obtain b1 where
      b1: "buffer ?g1 = Some b1" "Buffer_package b1 = ?pkg" "Buffer_file b1 = ?file"
      by auto
    obtain res' w' where wr: "Buffer_Write b1 w = (res', w')"
      by (cases "Buffer_Write b1 w")
    from run have result: "res = res'" "g1 = ?g1" "w1 = w'"
      by (simp_all add: generateVersionMetadataTypeFile_def Let_def build
          generateVersionMetadataTypeSource_def b1 wr)
    have kept: "tools_kept g ?g1"
      by (simp add: emit_def tools_kept_def)
    have unit: "(Buffer_package b1, Buffer_file b1) = metadata_unit g version"
      by (simp add: b1 metadata_unit_def metadataFile_def)
    from Buffer_Write_result [OF wr, of "reporter g"] kept show ?thesis
      by (simp add: result unit)
  qed
qed

text \<open>
  C9. For every type, the file \<^verbatim>\<open>generateTypeFile\<close> writes is named by the names
  calculator's file-name form of the name of the type concatenated with the word
  \<^verbatim>\<open>Type\<close>, in the package the packages calculator gives for the version that owns the
  type; the metadata file of a version is named by the file-name form of \<^verbatim>\<open>Metadata\<close>
  concatenated with \<^verbatim>\<open>Type\<close>, in the package of that version. Each call that
  returns no error has added exactly that one file to the disk.
\<close>

theorem generated_file_names:
  "(generateTypeFile g ty w = (None, g1, w1) \<longrightarrow>
      (\<exists>f. disk w1 = disk w @ [f] \<and>
         OutputFile_name f =
           File (names g) (names_Cat (Type_name (type_at (graph w) ty)) nomenclator_Type) \<and>
         OutputFile_package f =
           VersionPackage (packages g) (Type_owner (type_at (graph w) ty)))) \<and>
   (generateVersionMetadataTypeFile g version w = (None, g2, w2) \<longrightarrow>
      (\<exists>f. disk w2 = disk w @ [f] \<and>
         OutputFile_name f =
           File (names g) (names_Cat nomenclator_Metadata nomenclator_Type) \<and>
         OutputFile_package f = VersionPackage (packages g) version))"
proof (intro conjI impI)
  assume "generateTypeFile g ty w = (None, g1, w1)"
  from generateTypeFile_result [OF this]
  have "effect (reporter g) w w1 [type_unit g (graph w) ty] (type_reports g w ty)"
    by simp
  then show "\<exists>f. disk w1 = disk w @ [f] \<and>
      OutputFile_name f =
        File (names g) (names_Cat (Type_name (type_at (graph w) ty)) nomenclator_Type) \<and>
      OutputFile_package f = VersionPackage (packages g) (Type_owner (type_at (graph w) ty))"
    by (auto simp: effect_def type_unit_def unit_of_def)
next
  assume "generateVersionMetadataTypeFile g version w = (None, g2, w2)"
  from generateVersionMetadataTypeFile_result [OF this]
  have "effect (reporter g) w w2 [metadata_unit g version] []"
    by simp
  then show "\<exists>f. disk w2 = disk w @ [f] \<and>
      OutputFile_name f = File (names g) (names_Cat nomenclator_Metadata nomenclator_Type) \<and>
      OutputFile_package f = VersionPackage (packages g) version"
    by (auto simp: effect_def metadata_unit_def unit_of_def)
qed

theorem generated_file_names_witness:
  "fst (generateTypeFile example_generator 11 example_world) = None \<and>
   fst (generateVersionMetadataTypeFile example_generator 0 example_world) = None \<and>
   (\<exists>f. disk (snd (snd (generateTypeFile example_generator 11 example_world))) =
          disk example_world @ [f] \<and>
        OutputFile_name f = ''paintType.js'' \<and> OutputFile_package f = ''v1'') \<and>
   (\<exists>f. disk (snd (snd (generateVersionMetadataTypeFile example_generator 0 example_world))) =
          disk example_world @ [f] \<and>
        OutputFile_name f = ''MetadataType.js'' \<and> OutputFile_package f = ''v1'')"
proof -
  let ?t = "generateTypeFile example_generator 11 example_world"
  let ?m = "generateVersionMetadataTypeFile example_generator 0 example_world"
  have t: "fst ?t = None"
    by code_simp
  have m: "fst ?m = None"
    by code_simp
  have t': "?t = (None, fst (snd ?t), snd (snd ?t))"
    using t by (simp add: prod_eq_iff)
  have m': "?m = (None, fst (snd ?m), snd (snd ?m))"
    using m by (simp add: prod_eq_iff)
  have names: "File (names example_generator)
        (names_Cat (Type_name (type_at (graph example_world) 11)) nomenclator_Type) =
      ''paintType.js''"
    "File (names example_generator) (names_Cat nomenclator_Metadata nomenclator_Type) =
      ''MetadataType.js''"
    "VersionPackage (packages example_generator)
        (Type_owner (type_at (graph example_world) 11)) = ''v1''"
    "VersionPackage (packages example_generator) 0 = ''v1''"
    by (simp_all add: example_generator_def example_names_def example_packages_def
        example_world_def example_graph_def example_type_def names_Cat_def
        nomenclator_Type_def nomenclator_Metadata_def)
  from generated_file_names [of example_generator 11 example_world "fst (snd ?t)"
      "snd (snd ?t)" 0 "fst (snd ?m)" "snd (snd ?m)"] t' m'
  show ?thesis
    by (simp add: t m names)
qed


subsection \<open>The whole run\<close>

lemma Run_types_filter:
  "Run_types g ts w = Run_types g (filter (generated_type (graph w)) ts) w"
proof (induction ts arbitrary: g w)
  case Nil
  show ?case by simp
next
  case (Cons ty ts)
  show ?case
  proof (cases "generated_type (graph w) ty")
    case False
    with Cons.IH [of g w] show ?thesis
      by (simp add: generated_type_def)
  next
    case True
    obtain res g1 w1 where tf: "generateTypeFile g ty w = (res, g1, w1)"
      by (cases "generateTypeFile g ty w")
    from generateTypeFile_result [OF tf] have "graph w1 = graph w"
      by (simp add: world_kept_def)
    with Cons.IH [of g1 w1] True tf show ?thesis
      by (cases res) (simp_all add: generated_type_def)
  qed
qed

lemma Run_world:
  "snd (Run g w) = snd (Run_services g (Model_services (model_at (graph w) (model g))) w)"
  by (simp add: Run_def split: prod.splits option.splits)

text \<open>
  C10. The loop over the types of a version does exactly what it does on the enums and
  structs among them alone: a type that is neither leaves no trace, neither a file nor a
  report nor an error. When the environment refuses no file, the run leaves on the
  disk, for every version of every service in order, the metadata file of the version
  followed by one file for each enum or struct of the version, and nothing else; the
  reports it makes come from attributes of those structs only.
\<close>

theorem Run_generates_enums_and_structs:
  "Run_types g ts w = Run_types g (filter (generated_type (graph w)) ts) w \<and>
   (never_refuses w \<longrightarrow>
      map unit_of (disk (snd (snd (Run g w)))) =
        map unit_of (disk w) @ expected_units g (graph w) \<and>
      reporter_log (snd (snd (Run g w))) =
        (reporter_log w)(reporter g := reporter_log w (reporter g) @ expected_reports g w))"
proof (intro conjI impI)
  show "Run_types g ts w = Run_types g (filter (generated_type (graph w)) ts) w"
    by (rule Run_types_filter)
next
  assume ok: "never_refuses w"
  from Run_services_effect [OF ok, of g "Model_services (model_at (graph w) (model g))"]
  obtain g1 w1 where
    run: "Run_services g (Model_services (model_at (graph w) (model g))) w = (None, g1, w1)"
    and e: "effect (reporter g) w w1 (expected_units g (graph w)) (expected_reports g w)"
    by (auto simp: expected_units_def expected_reports_def model_versions_def)
  have w1: "snd (snd (Run g w)) = w1"
    by (simp add: Run_world run)
  from e show "map unit_of (disk (snd (snd (Run g w)))) =
      map unit_of (disk w) @ expected_units g (graph w)"
    by (simp add: w1 effect_disk)
  from e show "reporter_log (snd (snd (Run g w))) =
      (reporter_log w)(reporter g := reporter_log w (reporter g) @ expected_reports g w)"
    by (simp add: w1 effect_def)
qed

theorem Run_generates_enums_and_structs_witness:
  "never_refuses mixed_world \<and>
   Version_types (version_at (graph mixed_world) 0) = [12, 10, 13, 11] \<and>
   filter (generated_type (graph mixed_world)) [12, 10, 13, 11] = [10, 11] \<and>
   Run_types example_generator [12, 10, 13, 11] mixed_world =
     Run_types example_generator [10, 11] mixed_world \<and>
   map unit_of (disk (snd (snd (Run example_generator mixed_world)))) =
     [(''v1'', ''MetadataType.js''), (''v1'', ''colorType.js''), (''v1'', ''paintType.js'')] \<and>
   reporter_log (snd (snd (Run example_generator mixed_world))) 0 =
     [AttributeReport getterType_format 1]"
proof -
  have ok: "never_refuses mixed_world"
    by (simp add: never_refuses_def mixed_world_def)
  have ts: "Version_types (version_at (graph mixed_world) 0) = [12, 10, 13, 11]"
    by (simp add: mixed_world_def)
  have fl: "filter (generated_type (graph mixed_world)) [12, 10, 13, 11] = [10, 11]"
    by code_simp
  have us: "expected_units example_generator (graph mixed_world) =
      [(''v1'', ''MetadataType.js''), (''v1'', ''colorType.js''), (''v1'', ''paintType.js'')]"
    by code_simp
  have rs: "expected_reports example_generator mixed_world =
      [AttributeReport getterType_format 1]"
    by code_simp
  have start: "disk mixed_world = []" "reporter_log mixed_world 0 = []"
    "reporter example_generator = 0"
    by (simp_all add: mixed_world_def example_generator_def)
  note run = Run_generates_enums_and_structs [of example_generator "[12, 10, 13, 11]"
      mixed_world]
  from run have "Run_types example_generator [12, 10, 13, 11] mixed_world =
      Run_types example_generator
        (filter (generated_type (graph mixed_world)) [12, 10, 13, 11]) mixed_world"
    by (rule conjunct1)
  then have skipped: "Run_types example_generator [12, 10, 13, 11] mixed_world =
      Run_types example_generator [10, 11] mixed_world"
    by (simp only: fl)
  from run ok have "map unit_of (disk (snd (snd (Run example_generator mixed_world)))) =
        map unit_of (disk mixed_world) @ expected_units example_generator (graph mixed_world) \<and>
      reporter_log (snd (snd (Run example_generator mixed_world))) =
        (reporter_log mixed_world)(reporter example_generator :=
           reporter_log mixed_world (reporter example_generator) @
           expected_reports example_generator mixed_world)"
    by blast
  then have written: "map unit_of (disk (snd (snd (Run example_generator mixed_world)))) =
      [(''v1'', ''MetadataType.js''), (''v1'', ''colorType.js''), (''v1'', ''paintType.js'')]"
    and reported: "reporter_log (snd (snd (Run example_generator mixed_world))) 0 =
      [AttributeReport getterType_format 1]"
    by (simp_all add: us rs start)
  from ok ts fl skipped written reported show ?thesis
    by (simp only: simp_thms)
qed

subsection \<open>The result of a run\<close>

lemma of_char_digit_char: "d < 10 \<Longrightarrow> of_char (digit_char d) = 48 + d"
  by (simp add: digit_char_def)

lemma read_decimal_snoc:
  "read_decimal (s @ [c]) = 10 * read_decimal s + (of_char c - 48)"
  by (simp add: read_decimal_def)

lemma read_decimal_decimal: "read_decimal (decimal n) = n"
proof (induction n rule: decimal.induct)
  case (1 n)
  show ?case
  proof (cases "n < 10")
    case True
    then show ?thesis
      by (simp add: decimal.simps [of n] read_decimal_def of_char_digit_char)
  next
    case False
    with "1" have "read_decimal (decimal (n div 10)) = n div 10"
      by simp
    with False show ?thesis
      by (simp add: decimal.simps [of n] read_decimal_snoc of_char_digit_char)
  qed
qed

text \<open>
  C2. For every run whose traversal completes (no file was refused), with the error
  count it has accumulated in the field \<^verbatim>\<open>errors\<close>, a count that is not negative: the
  result is nil exactly when the count is zero; when the count is 1 the message is
  \<^verbatim>\<open>there was 1 error\<close>; when it is greater the message is \<^verbatim>\<open>there were N errors\<close>, where
  N is the decimal numeral of the count.
\<close>

theorem Run_result_counts:
  assumes "Run_services g (Model_services (model_at (graph w) (model g))) w = (None, g1, w1)"
    and "0 \<le> errors g1"
  shows "(fst (Run g w) = None \<longleftrightarrow> errors g1 = 0) \<and>
         (errors g1 = 1 \<longrightarrow> fst (Run g w) = Some (Error ''there was 1 error'')) \<and>
         (1 < errors g1 \<longrightarrow>
            fst (Run g w) =
              Some (Error (''there were '' @ Sprintf_d (errors g1) @ '' errors'')) \<and>
            int (read_decimal (Sprintf_d (errors g1))) = errors g1)"
  using assms by (auto simp: Run_def Sprintf_d_def read_decimal_decimal)

theorem Run_result_counts_witness:
  "Run_services example_generator [] empty_world = (None, example_generator, empty_world) \<and>
   fst (Run example_generator empty_world) = None \<and>
   fst (Run (example_generator\<lparr>errors := 1\<rparr>) empty_world) =
     Some (Error ''there was 1 error'') \<and>
   fst (Run (example_generator\<lparr>errors := 12\<rparr>) empty_world) =
     Some (Error ''there were 12 errors'')"
proof -
  have m: "\<And>p. Model_services (model_at (graph empty_world) p) = []"
    by (simp add: empty_world_def)
  have d: "Sprintf_d 12 = ''12''"
    by code_simp
  from Run_result_counts [of example_generator empty_world example_generator empty_world]
    Run_result_counts [of "example_generator\<lparr>errors := 1\<rparr>" empty_world
      "example_generator\<lparr>errors := 1\<rparr>" empty_world]
    Run_result_counts [of "example_generator\<lparr>errors := 12\<rparr>" empty_world
      "example_generator\<lparr>errors := 12\<rparr>" empty_world]
  show ?thesis
    by (simp add: m d example_generator_def)
qed

subsection \<open>Reported errors are not counted\<close>

lemma Run_types_kept: "Run_types g ts w = (res, g1, w1) \<Longrightarrow> tools_kept g g1"
proof (induction ts arbitrary: g w)
  case Nil
  then show ?case by (simp add: tools_kept_refl)
next
  case (Cons ty ts)
  show ?case
  proof (cases "IsEnum (type_at (graph w) ty) \<or> IsStruct (type_at (graph w) ty)")
    case False
    with Cons show ?thesis by simp
  next
    case True
    obtain res' g' w' where tf: "generateTypeFile g ty w = (res', g', w')"
      by (cases "generateTypeFile g ty w")
    from generateTypeFile_result [OF tf] have k: "tools_kept g g'"
      by simp
    show ?thesis
    proof (cases res')
      case None
      with Cons.prems True tf have "Run_types g' ts w' = (res, g1, w1)"
        by simp
      from tools_kept_trans [OF k Cons.IH [OF this]] show ?thesis .
    next
      case (Some e)
      with Cons.prems True tf k show ?thesis
        by auto
    qed
  qed
qed

lemma Run_versions_kept: "Run_versions g vs w = (res, g1, w1) \<Longrightarrow> tools_kept g g1"
proof (induction vs arbitrary: g w)
  case Nil
  then show ?case by (simp add: tools_kept_refl)
next
  case (Cons version vs)
  obtain r1 g' w' where meta: "generateVersionMetadataTypeFile g version w = (r1, g', w')"
    by (cases "generateVersionMetadataTypeFile g version w")
  from generateVersionMetadataTypeFile_result [OF meta] have k1: "tools_kept g g'"
    by simp
  show ?case
  proof (cases r1)
    case (Some e)
    with Cons.prems meta k1 show ?thesis
      by auto
  next
    case None
    obtain r2 g'' w'' where
      tys: "Run_types g' (Version_types (version_at (graph w') version)) w' = (r2, g'', w'')"
      by (cases "Run_types g' (Version_types (version_at (graph w') version)) w'")
    from tools_kept_trans [OF k1 Run_types_kept [OF tys]] have k2: "tools_kept g g''" .
    show ?thesis
    proof (cases r2)
      case (Some e)
      with Cons.prems meta None tys k2 show ?thesis
        by auto
    next
      case r2: None
      with Cons.prems meta None tys have "Run_versions g'' vs w'' = (res, g1, w1)"
        by simp
      from tools_kept_trans [OF k2 Cons.IH [OF this]] show ?thesis .
    qed
  qed
qed

lemma Run_services_kept: "Run_services g ss w = (res, g1, w1) \<Longrightarrow> tools_kept g g1"
proof (induction ss arbitrary: g w)
  case Nil
  then show ?case by (simp add: tools_kept_refl)
next
  case (Cons service ss)
  obtain r1 g' w' where
    vers: "Run_versions g (Service_versions (service_at (graph w) service)) w = (r1, g', w')"
    by (cases "Run_versions g (Service_versions (service_at (graph w) service)) w")
  note k1 = Run_versions_kept [OF vers]
  show ?case
  proof (cases r1)
    case (Some e)
    with Cons.prems vers k1 show ?thesis
      by auto
  next
    case None
    with Cons.prems vers have "Run_services g' ss w' = (res, g1, w1)"
      by simp
    from tools_kept_trans [OF k1 Cons.IH [OF this]] show ?thesis .
  qed
qed

text \<open>
  No step of the traversal writes the field \<^verbatim>\<open>errors\<close>: a generator made by \<^verbatim>\<open>Build\<close>,
  whose count is zero, returns from \<^verbatim>\<open>Run\<close> what the traversal returned, whatever was
  reported; when no file is refused that is nil.
\<close>

lemma Run_of_built_generator:
  assumes "Build b = (Some g, None)"
  shows "fst (Run g w) =
           fst (Run_services g (Model_services (model_at (graph w) (model g))) w)"
    and "errors (fst (snd (Run g w))) = 0"
    and "never_refuses w \<Longrightarrow> fst (Run g w) = None"
proof -
  from assms have zero: "errors g = 0"
    by (auto simp: Build_def split: option.splits if_splits)
  obtain res g1 w1 where
    run: "Run_services g (Model_services (model_at (graph w) (model g))) w = (res, g1, w1)"
    by (cases "Run_services g (Model_services (model_at (graph w) (model g))) w")
  from Run_services_kept [OF run] zero have g1: "errors g1 = 0"
    by (simp add: tools_kept_def)
  with run show same: "fst (Run g w) =
      fst (Run_services g (Model_services (model_at (graph w) (model g))) w)"
    by (cases res) (simp_all add: Run_def)
  from run g1 show "errors (fst (snd (Run g w))) = 0"
    by (cases res) (simp_all add: Run_def)
  show "fst (Run g w) = None" if "never_refuses w"
    using Run_services_effect [OF that, of g "Model_services (model_at (graph w) (model g))"]
    by (auto simp: same)
qed

text \<open>
  C1, on the code. Let the generator be one that \<^verbatim>\<open>Build\<close> has made, and let the value
  type of an attribute be none of scalar, struct, list or map. Then \<^verbatim>\<open>getterType\<close> and
  \<^verbatim>\<open>fieldType\<close> report through the reporter and return the zero reference, and that is
  all they do: nothing adds to the field \<^verbatim>\<open>errors\<close>. Whatever the model holds and
  whatever the buffer answers, the count is still zero when \<^verbatim>\<open>Run\<close> ends, so the
  final check of \<^verbatim>\<open>Run\<close> adds nothing to what the traversal returned; when the buffer
  refuses no file, \<^verbatim>\<open>Run\<close> returns nil and not the error \<^verbatim>\<open>there was 1 error\<close>.
\<close>

theorem Run_does_not_count_reports:
  assumes "Build b = (Some g, None)"
    and "t = type_at (graph w) (Attribute_type (attribute_at (graph w) attribute))"
    and "\<not> IsScalar t" and "\<not> IsStruct t" and "\<not> IsList t" and "\<not> IsMap t"
  shows "getterType g attribute w =
           (empty_TypeReference,
            Reporter_Errorf (reporter g) (AttributeReport getterType_format attribute) w) \<and>
         fieldType g attribute w =
           (empty_TypeReference,
            Reporter_Errorf (reporter g) (AttributeReport fieldType_format attribute) w) \<and>
         errors (fst (snd (Run g w))) = 0 \<and>
         fst (Run g w) =
           fst (Run_services g (Model_services (model_at (graph w) (model g))) w) \<and>
         (never_refuses w \<longrightarrow> fst (Run g w) = None)"
proof -
  from assms(2-6) have "getterType_ref g attribute w = None"
    and "fieldType_ref g attribute w = None"
    by (simp_all add: getterType_ref_def fieldType_ref_def)
  then have "getterType g attribute w =
      (empty_TypeReference,
       Reporter_Errorf (reporter g) (AttributeReport getterType_format attribute) w)"
    and "fieldType g attribute w =
      (empty_TypeReference,
       Reporter_Errorf (reporter g) (AttributeReport fieldType_format attribute) w)"
    by (simp_all add: getterType_def fieldType_def)
  with Run_of_built_generator [OF assms(1), of w] show ?thesis
    by simp
qed

theorem Run_does_not_count_reports_witness:
  "Build example_builder = (Some example_generator, None) \<and>
   Type_kind (type_at (graph example_world)
     (Attribute_type (attribute_at (graph example_world) 1))) = UnknownType \<and>
   never_refuses example_world \<and>
   length (Version_types (version_at (graph example_world) 0)) = 11 \<and>
   getterType example_generator 1 example_world =
     (empty_TypeReference,
      Reporter_Errorf 0 (AttributeReport getterType_format 1) example_world) \<and>
   fieldType example_generator 1 example_world =
     (empty_TypeReference,
      Reporter_Errorf 0 (AttributeReport fieldType_format 1) example_world) \<and>
   errors (fst (snd (Run example_generator example_world))) = 0 \<and>
   fst (Run example_generator example_world) = None \<and>
   reporter_log (snd (snd (Run example_generator example_world))) 0 =
     [AttributeReport getterType_format 1] \<and>
   map unit_of (disk (snd (snd (Run example_generator example_world)))) =
     [(''v1'', ''MetadataType.js''), (''v1'', ''nodeiType.js''),
      (''v1'', ''nodeiiType.js''), (''v1'', ''nodeiiiType.js''),
      (''v1'', ''nodeiiiiType.js''), (''v1'', ''nodeiiiiiType.js''),
      (''v1'', ''nodeiiiiiiType.js''), (''v1'', ''nodeiiiiiiiType.js''),
      (''v1'', ''nodeiiiiiiiiType.js''), (''v1'', ''nodeiiiiiiiiiType.js''),
      (''v1'', ''colorType.js''), (''v1'', ''paintType.js'')]"
proof -
  let ?t = "type_at (graph example_world)
    (Attribute_type (attribute_at (graph example_world) 1))"
  have built: "Build example_builder = (Some example_generator, None)"
    by (simp add: Build_def example_builder_def example_generator_def)
  have kind: "Type_kind ?t = UnknownType"
    by (simp add: example_world_def example_graph_def example_attribute_def
        example_type_def)
  then have none: "\<not> IsScalar ?t" "\<not> IsStruct ?t" "\<not> IsList ?t" "\<not> IsMap ?t"
    by (simp_all add: IsScalar_def IsStruct_def IsList_def IsMap_def)
  have ok: "never_refuses example_world"
    by (simp add: never_refuses_def example_world_def)
  have rep: "reporter example_generator = 0"
    by (simp add: example_generator_def)
  have types: "length (Version_types (version_at (graph example_world) 0)) = 11"
    by (simp add: example_world_def example_graph_def)
  note run = Run_does_not_count_reports [OF built refl none, unfolded rep]
  from run have getter: "getterType example_generator 1 example_world =
      (empty_TypeReference,
       Reporter_Errorf 0 (AttributeReport getterType_format 1) example_world)"
    and field: "fieldType example_generator 1 example_world =
      (empty_TypeReference,
       Reporter_Errorf 0 (AttributeReport fieldType_format 1) example_world)"
    and count: "errors (fst (snd (Run example_generator example_world))) = 0"
    by blast+
  from run ok have result: "fst (Run example_generator example_world) = None"
    by blast
  have reports: "reporter_log (snd (snd (Run example_generator example_world))) 0 =
      [AttributeReport getterType_format 1]"
    by code_simp
  have units: "map unit_of (disk (snd (snd (Run example_generator example_world)))) =
     [(''v1'', ''MetadataType.js''), (''v1'', ''nodeiType.js''),
      (''v1'', ''nodeiiType.js''), (''v1'', ''nodeiiiType.js''),
      (''v1'', ''nodeiiiiType.js''), (''v1'', ''nodeiiiiiType.js''),
      (''v1'', ''nodeiiiiiiType.js''), (''v1'', ''nodeiiiiiiiType.js''),
      (''v1'', ''nodeiiiiiiiiType.js''), (''v1'', ''nodeiiiiiiiiiType.js''),
      (''v1'', ''colorType.js''), (''v1'', ''paintType.js'')]"
    by code_simp
  from built kind ok types getter field count result reports units show ?thesis
    by (intro conjI)
qed

end
